theory Spec2Isabelle
  imports Complex_Main "HOL-Library.List_Lexorder" "HOL-Library.Char_ord"
    "HOL-Library.Multiset"
begin

section \<open>Values, errors and arithmetic\<close>

text \<open>
  The program computes with Python floats. They are modelled as real numbers (decimal
  literals are the exact decimal fractions, rounding is not modelled), and a value that
  may be \<^verbatim>\<open>float('inf')\<close> has the type \<open>pyfloat\<close>. Every exception the code can raise is a
  value of \<open>error\<close>; a function that can raise returns \<open>error + 'a\<close>.
\<close>

datatype pyfloat = Finite real | PosInf

datatype error =
    ValueError string "string list"
  | KeyError
  | TypeError
  | ZeroDivisionError

text \<open>Python's \<^verbatim>\<open>a / b\<close> on floats: it raises when the divisor is zero.\<close>

definition truediv :: "real \<Rightarrow> real \<Rightarrow> error + real" where
  "truediv a b = (if b = 0 then Inl ZeroDivisionError else Inr (a / b))"

text \<open>The value of a design factor: the quotient as a float, the error passed through.\<close>

definition as_float :: "error + real \<Rightarrow> error + pyfloat" where
  "as_float r = (case r of Inl e \<Rightarrow> Inl e | Inr q \<Rightarrow> Inr (Finite q))"

text \<open>
  A Python dictionary keeps its keys in insertion order: it is a list of pairs with distinct
  keys. Storing under a key that is present replaces the value in place, storing under a new
  key appends; \<^verbatim>\<open>pop\<close> removes the key and returns its value.
\<close>

datatype key = Idx nat | Lbl string

fun dict_get :: "('k \<times> 'v) list \<Rightarrow> 'k \<Rightarrow> 'v option" where
  "dict_get [] k = None"
| "dict_get ((k', v) # d) k = (if k' = k then Some v else dict_get d k)"

fun dict_set :: "('k \<times> 'v) list \<Rightarrow> 'k \<Rightarrow> 'v \<Rightarrow> ('k \<times> 'v) list" where
  "dict_set [] k v = [(k, v)]"
| "dict_set ((k', v') # d) k v = (if k' = k then (k, v) # d else (k', v') # dict_set d k v)"

fun dict_pop :: "('k \<times> 'v) list \<Rightarrow> 'k \<Rightarrow> ('v \<times> ('k \<times> 'v) list) option" where
  "dict_pop [] k = None"
| "dict_pop ((k', v) # d) k =
     (if k' = k then Some (v, d)
      else (case dict_pop d k of None \<Rightarrow> None | Some (x, d') \<Rightarrow> Some (x, (k', v) # d')))"

section \<open>Inter-section burst functions\<close>

text \<open>
  The section dictionaries the burst functions read, typed as their docstrings type them
  (\<^verbatim>\<open>Dict[str, float]\<close>): one field for each key read or written. The keys \<^verbatim>\<open>maps\<close>,
  \<^verbatim>\<open>burst_load\<close> and \<^verbatim>\<open>burst_df\<close> are absent (\<open>None\<close>) until a burst function stores them.
\<close>

record section_dict =
  mud_weight :: real
  backup_mud :: real
  tvd :: real
  frac_init_pressure :: real
  int_gradient :: real
  burst_strength :: real
  maps :: "real option"
  burst_load :: "real option"
  burst_df :: "pyfloat option"

definition calculateSoloMapsBurstLoadDF :: "section_dict \<Rightarrow> error + section_dict" where
  "calculateSoloMapsBurstLoadDF section =
     (let maps = section_dict.mud_weight section * section_dict.tvd section * 0.05194806;
          burst_load =
            max (0.05194806 * (section_dict.mud_weight section - section_dict.backup_mud section)
                   * section_dict.tvd section)
                (min (section_dict.frac_init_pressure section
                        - (0.05194806 * section_dict.backup_mud section * section_dict.tvd section))
                     (maps - section_dict.int_gradient section
                               * (section_dict.tvd section - section_dict.tvd section)
                        - (0.05194806 * section_dict.backup_mud section * section_dict.tvd section)))
      in case (if burst_load > 0
               then as_float (truediv (section_dict.burst_strength section) burst_load)
               else Inr PosInf) of
           Inl e \<Rightarrow> Inl e
         | Inr df \<Rightarrow>
             Inr (section\<lparr>section_dict.maps := Some maps,
                           section_dict.burst_load := Some burst_load,
                           section_dict.burst_df := Some df\<rparr>))"

definition calculate_maps :: "section_dict \<Rightarrow> section_dict \<Rightarrow> real" where
  "calculate_maps sec1 sec2 =
     (let next_bhp = section_dict.mud_weight sec2 * section_dict.tvd sec2 * 0.05194806;
          maps = next_bhp - (section_dict.tvd sec2 - section_dict.tvd sec1)
                              * section_dict.int_gradient sec2
      in maps)"

definition calculate_burst_load :: "section_dict \<Rightarrow> section_dict \<Rightarrow> real \<Rightarrow> real" where
  "calculate_burst_load sec1 sec2 maps' =
     (let part1 = 0.05194806 * (section_dict.mud_weight sec1 - section_dict.backup_mud sec1)
                    * section_dict.tvd sec1;
          minPart1 = section_dict.frac_init_pressure sec1
                       - (section_dict.tvd sec1 - section_dict.tvd sec1) * section_dict.int_gradient sec2
                       - (0.05194806 * section_dict.backup_mud sec1 * section_dict.tvd sec1);
          minPart2 = maps' - section_dict.int_gradient sec1
                              * (section_dict.tvd sec1 - section_dict.tvd sec1)
                       - (0.05194806 * section_dict.backup_mud sec1 * section_dict.tvd sec1);
          max_all = max part1 (min minPart1 minPart2)
      in max_all)"

section \<open>Properties of the burst functions\<close>

text \<open>
  Claim C5. For every upper and lower section, \<open>calculate_maps\<close> returns
  \<open>lower.mud_weight * lower.tvd * 0.05194806 - (lower.tvd - upper.tvd) * lower.int_gradient\<close>;
  for an upper section at tvd 5000 and a lower section with mud weight 15.0, tvd 10000 and
  internal gradient 0.1 the result is within 0.1 of 7292.2.
\<close>

theorem calculate_maps_formula:
  "calculate_maps upper lower =
     section_dict.mud_weight lower * section_dict.tvd lower * 0.05194806
       - (section_dict.tvd lower - section_dict.tvd upper) * section_dict.int_gradient lower
   \<and> \<bar>calculate_maps
        (upper\<lparr>section_dict.tvd := 5000\<rparr>)
        (lower\<lparr>section_dict.mud_weight := 15.0, section_dict.tvd := 10000,
                section_dict.int_gradient := 0.1\<rparr>) - 7292.2\<bar> \<le> 0.1"
  by (simp add: calculate_maps_def)

text \<open>
  Claim C6. For every pair of sections and every maps value, \<open>calculate_burst_load\<close> returns
  the maximum of the differential mud pressure and the smaller of the fracture ceiling and
  the maps ceiling; the terms that multiply \<open>tvd - tvd\<close> contribute nothing.
\<close>

theorem calculate_burst_load_formula:
  "calculate_burst_load upper lower m =
     max (0.05194806 * (section_dict.mud_weight upper - section_dict.backup_mud upper)
            * section_dict.tvd upper)
         (min (section_dict.frac_init_pressure upper
                 - 0.05194806 * section_dict.backup_mud upper * section_dict.tvd upper)
              (m - 0.05194806 * section_dict.backup_mud upper * section_dict.tvd upper))"
  by (simp add: calculate_burst_load_def)

text \<open>
  Claim C7. For a single section, \<open>calculateSoloMapsBurstLoadDF\<close> stores
  \<open>maps = mud_weight * tvd * 0.05194806\<close>, the burst load of \<open>calculate_burst_load\<close> taken
  with the section's own fracture pressure and this maps, and
  \<open>burst_df = burst_strength / burst_load\<close> when the burst load is positive, else infinity.
  For mud weight 15.0, backup mud 8.6, tvd 10000, fracture pressure 8000, internal gradient
  0.1 and burst strength 10000 the stored maps is within 0.01 of 7792.21 and the design
  factor is finite.
\<close>

theorem calculateSoloMapsBurstLoadDF_formula:
  "calculateSoloMapsBurstLoadDF s =
     Inr (s\<lparr>section_dict.maps :=
               Some (section_dict.mud_weight s * section_dict.tvd s * 0.05194806),
             section_dict.burst_load :=
               Some (calculate_burst_load s other
                       (section_dict.mud_weight s * section_dict.tvd s * 0.05194806)),
             section_dict.burst_df :=
               Some (if calculate_burst_load s other
                          (section_dict.mud_weight s * section_dict.tvd s * 0.05194806) > 0
                     then Finite (section_dict.burst_strength s
                                    / calculate_burst_load s other
                                        (section_dict.mud_weight s * section_dict.tvd s * 0.05194806))
                     else PosInf)\<rparr>)
   \<and> calculateSoloMapsBurstLoadDF
         \<lparr>section_dict.mud_weight = 15.0, backup_mud = 8.6, tvd = 10000,
          frac_init_pressure = 8000, int_gradient = 0.1, burst_strength = 10000,
          maps = None, burst_load = None, burst_df = None\<rparr>
       = Inr \<lparr>section_dict.mud_weight = 15.0, backup_mud = 8.6, tvd = 10000,
              frac_init_pressure = 8000, int_gradient = 0.1, burst_strength = 10000,
              maps = Some 7792.209, burst_load = Some 3324.67584,
              burst_df = Some (Finite (10000 / 3324.67584))\<rparr>
   \<and> \<bar>7792.209 - 7792.21\<bar> \<le> (0.01 :: real)"
  by (simp add: calculateSoloMapsBurstLoadDF_def calculate_burst_load_def truediv_def
      as_float_def Let_def)

section \<open>The section assembler: class WellBoreExpanded\<close>

text \<open>
  A section is a dictionary from field names to values; a value is a float or a string.
  \<open>getitem\<close> is \<^verbatim>\<open>d[k]\<close>, which raises on a missing key; \<open>get_or_item\<close> is
  \<^verbatim>\<open>d.get(k, d[k'])\<close>, whose default \<^verbatim>\<open>d[k']\<close> is evaluated, and can raise, before the
  lookup of \<open>k\<close>. Subtraction raises unless both operands are floats.
\<close>

datatype pyval = Num real | Str string

type_synonym pydict = "string \<Rightarrow> pyval option"

definition getitem :: "pydict \<Rightarrow> string \<Rightarrow> error + pyval" where
  "getitem d k = (case d k of None \<Rightarrow> Inl KeyError | Some v \<Rightarrow> Inr v)"

definition get_or_item :: "pydict \<Rightarrow> string \<Rightarrow> string \<Rightarrow> error + pyval" where
  "get_or_item d k k' =
     (case getitem d k' of
        Inl e \<Rightarrow> Inl e
      | Inr fallback \<Rightarrow> Inr (case d k of None \<Rightarrow> fallback | Some v \<Rightarrow> v))"

definition py_sub :: "pyval \<Rightarrow> pyval \<Rightarrow> error + real" where
  "py_sub a b = (case (a, b) of (Num x, Num y) \<Rightarrow> Inr (x - y) | _ \<Rightarrow> Inl TypeError)"

text \<open>
  \<^verbatim>\<open>sorted(items, key=..., reverse=...)\<close>: the keys of all items are computed first (the
  first exception ends the call); floats are compared as numbers and strings
  lexicographically, a comparison of a float with a string raises a TypeError. The sort is
  stable, also with \<^verbatim>\<open>reverse=True\<close>, where the list is reversed before and after an
  ascending stable sort.
\<close>

fun collect :: "(error + 'a) list \<Rightarrow> error + 'a list" where
  "collect [] = Inr []"
| "collect (Inl e # rs) = Inl e"
| "collect (Inr x # rs) = (case collect rs of Inl e \<Rightarrow> Inl e | Inr xs \<Rightarrow> Inr (x # xs))"

fun num_of :: "pyval \<Rightarrow> real option" where
  "num_of (Num x) = Some x"
| "num_of (Str s) = None"

fun str_of :: "pyval \<Rightarrow> string option" where
  "str_of (Num x) = None"
| "str_of (Str s) = Some s"

definition stable_sort :: "bool \<Rightarrow> ('k::linorder \<times> 'a) list \<Rightarrow> 'a list" where
  "stable_sort reverse xs =
     (if reverse then rev (map snd (sort_key fst (rev xs))) else map snd (sort_key fst xs))"

definition py_sorted :: "bool \<Rightarrow> ('a \<Rightarrow> error + pyval) \<Rightarrow> 'a list \<Rightarrow> error + 'a list" where
  "py_sorted reverse key_fn items =
     (case collect (map key_fn items) of
        Inl e \<Rightarrow> Inl e
      | Inr keys \<Rightarrow>
          (case those (map num_of keys) of
             Some ks \<Rightarrow> Inr (stable_sort reverse (zip ks items))
           | None \<Rightarrow>
               (case those (map str_of keys) of
                  Some ks \<Rightarrow> Inr (stable_sort reverse (zip ks items))
                | None \<Rightarrow> Inl TypeError)))"

text \<open>The re-indexing loop: \<^verbatim>\<open>temp[i] = v\<close> for the values in their order.\<close>

definition reindex :: "(key \<times> 'v) list \<Rightarrow> (key \<times> 'v) list" where
  "reindex d = zip (map Idx [0..<length d]) (map snd d)"

text \<open>
  The well. The depth parameters are floats (the constructor converts them), so the
  \<^verbatim>\<open>isinstance\<close> tests of the validation hold.
\<close>

record wellbore =
  name :: string
  top :: real
  bottom :: real
  method' :: string
  sections :: "(key \<times> pydict) list"
  complete :: bool
  max_md_depth :: real
  max_tvd_depth :: real
  tol :: real
  frac_gradient :: real
  relationships :: "(string \<times> pyval) list"

definition validate_initial_parameters :: "wellbore \<Rightarrow> error + unit" where
  "validate_initial_parameters self =
     (if wellbore.max_md_depth self \<le> 0
      then Inl (ValueError ''max_md_depth must be a positive number.'' [])
      else if wellbore.max_tvd_depth self \<le> 0
      then Inl (ValueError ''max_tvd_depth must be a positive number.'' [])
      else if wellbore.tol self < 0
      then Inl (ValueError ''tol (top of liner) must be a non-negative number.'' [])
      else Inr ())"

text \<open>
  Modelled from the spec: the constructor of the base class \<^verbatim>\<open>String\<close> of
  \<^verbatim>\<open>welleng.architecture\<close> is not among the sources. It stores the name, the top, the bottom
  and the method; a new well has no section and its completion flag is false.
\<close>

definition WellBoreExpanded ::
  "string \<Rightarrow> real \<Rightarrow> real \<Rightarrow> real \<Rightarrow> real \<Rightarrow> real \<Rightarrow> real \<Rightarrow> string \<Rightarrow> error + wellbore" where
  "WellBoreExpanded name_arg top_arg bottom_arg max_md_depth_arg max_tvd_depth_arg tol_arg
       frac_gradient_arg method_arg =
     (let self = \<lparr>wellbore.name = name_arg, top = top_arg, bottom = bottom_arg,
                  method' = method_arg, sections = [], complete = False,
                  max_md_depth = max_md_depth_arg, max_tvd_depth = max_tvd_depth_arg,
                  tol = tol_arg, frac_gradient = frac_gradient_arg, relationships = []\<rparr>
      in case validate_initial_parameters self of
           Inl e \<Rightarrow> Inl e
         | Inr u \<Rightarrow> Inr self)"

text \<open>
  The two strategies. An exception ends the call; the state it leaves behind is not
  modelled. The completion flag is only ever set. The bottom-up strategy reads the section
  at index 0, \<^verbatim>\<open>self.sections[0]\<close> before the insertion and \<^verbatim>\<open>temp[0]\<close> after the
  descending sort.
\<close>

definition add_section_top_down_new :: "wellbore \<Rightarrow> pydict \<Rightarrow> error + wellbore" where
  "add_section_top_down_new self kwargs =
     (case (if wellbore.sections self = [] then Inr (0, Num (wellbore.top self))
            else (let temp = length (wellbore.sections self)
                  in case dict_get (wellbore.sections self) (Idx (temp - 1)) of
                       None \<Rightarrow> Inl KeyError
                     | Some previous \<Rightarrow>
                         (case getitem previous ''bottom'' of
                            Inl e \<Rightarrow> Inl e
                          | Inr b \<Rightarrow> Inr (temp, b)))) of
        Inl e \<Rightarrow> Inl e
      | Inr (temp, new_top) \<Rightarrow>
          (let sections1 =
                 dict_set (wellbore.sections self) (Idx temp) ([''top'' \<mapsto> new_top] ++ kwargs)
           in case py_sorted False (\<lambda>item. getitem (snd item) ''top'') sections1 of
                Inl e \<Rightarrow> Inl e
              | Inr sections2 \<Rightarrow>
                  (let temp2 = reindex sections2
                   in case dict_get temp2 (Idx (length temp2 - 1)) of
                        None \<Rightarrow> Inl KeyError
                      | Some deepest \<Rightarrow>
                          (case getitem deepest ''bottom'' of
                             Inl e \<Rightarrow> Inl e
                           | Inr b \<Rightarrow>
                               Inr (self\<lparr>wellbore.complete :=
                                           (b = Num (wellbore.bottom self)
                                            \<or> wellbore.complete self),
                                         wellbore.sections := temp2\<rparr>)))))"

definition add_section_bottom_up_new :: "wellbore \<Rightarrow> pydict \<Rightarrow> error + wellbore" where
  "add_section_bottom_up_new self kwargs =
     (case (if wellbore.sections self = [] then Inr (0, Num (wellbore.bottom self))
            else (let temp = length (wellbore.sections self)
                  in case dict_get (wellbore.sections self) (Idx 0) of
                       None \<Rightarrow> Inl KeyError
                     | Some first_section \<Rightarrow>
                         (case get_or_item first_section ''md_top'' ''top'' of
                            Inl e \<Rightarrow> Inl e
                          | Inr b \<Rightarrow> Inr (temp, b)))) of
        Inl e \<Rightarrow> Inl e
      | Inr (temp, new_bottom) \<Rightarrow>
          (case (case kwargs ''length'' of
                   Some l \<Rightarrow>
                     (case py_sub new_bottom l of
                        Inl e \<Rightarrow> Inl e
                      | Inr t \<Rightarrow> Inr (Num (max t (wellbore.top self))))
                 | None \<Rightarrow>
                     (case kwargs ''top'' of
                        Some t \<Rightarrow> Inr t
                      | None \<Rightarrow> Inr (Num (wellbore.top self)))) of
             Inl e \<Rightarrow> Inl e
           | Inr new_top \<Rightarrow>
               (let sections1 =
                      dict_set (wellbore.sections self) (Idx temp)
                        ([''top'' \<mapsto> new_top, ''bottom'' \<mapsto> new_bottom] ++ kwargs)
                in case py_sorted True (\<lambda>item. get_or_item (snd item) ''md_bottom'' ''bottom'')
                          sections1 of
                     Inl e \<Rightarrow> Inl e
                   | Inr sections2 \<Rightarrow>
                       (let temp2 = reindex sections2
                        in case dict_get temp2 (Idx 0) of
                             None \<Rightarrow> Inl KeyError
                           | Some first_section \<Rightarrow>
                               (case getitem first_section ''top'' of
                                  Inl e \<Rightarrow> Inl e
                                | Inr t \<Rightarrow>
                                    Inr (self\<lparr>wellbore.complete :=
                                                (t = Num (wellbore.top self)
                                                 \<or> wellbore.complete self),
                                              wellbore.sections := temp2\<rparr>))))))"

definition required_params :: "string list" where
  "required_params =
     [''id'', ''tvd'', ''od'', ''bottom'', ''casing_type'', ''weight'', ''grade'',
      ''connection'', ''hole_size'', ''washout'',
      ''int_gradient'', ''mud_weight'', ''backup_mud'', ''cement_cu_ft'',
      ''body_yield'', ''burst_strength'',
      ''wall_thickness'', ''csg_internal_diameter'', ''collapse_pressure'',
      ''tension_strength'']"

definition add_section_with_properties :: "wellbore \<Rightarrow> pydict \<Rightarrow> error + wellbore" where
  "add_section_with_properties self kwargs =
     (let missing_params = filter (\<lambda>param. kwargs param = None) required_params
      in if missing_params \<noteq> []
         then Inl (ValueError ''Missing required parameters for section'' missing_params)
         else if wellbore.method' self = ''top_down'' then add_section_top_down_new self kwargs
         else if wellbore.method' self = ''bottom_up'' then add_section_bottom_up_new self kwargs
         else Inr self)"

text \<open>The loop of \<^verbatim>\<open>main\<close> over the rows: one \<open>add_section_with_properties\<close> for each.\<close>

fun add_sections :: "wellbore \<Rightarrow> pydict list \<Rightarrow> error + wellbore" where
  "add_sections w [] = Inr w"
| "add_sections w (kwargs # rows) =
     (case add_section_with_properties w kwargs of
        Inl e \<Rightarrow> Inl e
      | Inr w' \<Rightarrow> add_sections w' rows)"

section \<open>The per-section calculator: class CasingDataCalc\<close>

text \<open>
  The two dictionaries the constructor reads, typed as the class docstring types them.
\<close>

record casing =
  tvd :: real
  washout :: real
  int_gradient :: real
  mud_weight :: real
  backup_mud :: real
  cement_cu_ft :: real
  hole_size :: real
  bottom :: real
  top :: real
  weight :: real
  od :: real
  grade :: string
  connection :: string
  body_yield :: real
  burst_strength :: real
  wall_thickness :: real
  csg_internal_diameter :: real
  collapse_pressure :: real
  tension_strength :: real

record univ_params =
  tol :: real
  frac_gradient :: real
  max_md_depth :: real
  max_tvd_depth :: real

text \<open>
  The object: the calculation results (\<^verbatim>\<open>Optional[float] = None\<close> until \<open>calculateData\<close>
  assigns them), the results dictionary (in the order of its literal), and the stored
  casing properties and universal parameters.
\<close>

record casing_data_calc =
  tension_df :: "pyfloat option"
  tension_buoyed :: "real option"
  tension_air :: "real option"
  neutral_point :: "real option"
  collapse_df :: "pyfloat option"
  masp :: "real option"
  collapse_load :: "real option"
  toc :: "real option"
  cmt_height :: "real option"
  annular_volume :: "real option"
  frac_init_pressure :: "real option"
  results :: "(string \<times> pyfloat) list"
  tvd :: real
  washout :: real
  int_gradient :: real
  mud_weight :: real
  backup_mud :: real
  cement_cu_ft :: real
  hole_size :: real
  set_depth :: real
  casing_top :: real
  csg_weight :: real
  csg_size :: real
  csg_grade :: string
  csg_collar :: string
  body_yield :: real
  burst_strength :: real
  wall_thickness :: real
  csg_internal_diameter :: real
  collapse_strength :: real
  tension_strength :: real
  tol :: real
  frac_gradient :: real
  max_md_depth :: real
  max_tvd_depth :: real

text \<open>\<^verbatim>\<open>math.pi\<close>\<close>

definition math_pi :: real where
  "math_pi = pi"

definition calculate_cement_volume :: "casing_data_calc \<Rightarrow> real" where
  "calculate_cement_volume self =
     (let hole_area = math_pi * (hole_size self / 12) ^ 2 / 4;
          casing_area = math_pi * (csg_size self / 12) ^ 2 / 4
      in hole_area - casing_area)"

definition calculate_cement_height :: "casing_data_calc \<Rightarrow> error + real" where
  "calculate_cement_height self =
     (if csg_size self > 0 then
        (let effective_hole_size = hole_size self * (1 + washout self / 100);
             annular_volume_per_foot = (effective_hole_size ^ 2 - csg_size self ^ 2) / 183.35
         in case truediv 1 annular_volume_per_foot of
              Inl e \<Rightarrow> Inl e
            | Inr q \<Rightarrow> Inr (q * cement_cu_ft self))
      else Inr 0)"

definition calculate_toc :: "casing_data_calc \<Rightarrow> error + real" where
  "calculate_toc self =
     (case calculate_cement_height self of
        Inl e \<Rightarrow> Inl e
      | Inr cement_height \<Rightarrow>
          (let output = set_depth self - cement_height
           in if output < 0 then Inr 0 else Inr output))"

definition calculate_masp :: "casing_data_calc \<Rightarrow> real" where
  "calculate_masp self =
     (let pore_pressure_gradient = 0.465;
          mud_hydrostatic_pressure = 0.05194806 * tvd self * mud_weight self;
          internal_pressure = int_gradient self * tvd self;
          pore_pressure = pore_pressure_gradient * tvd self;
          masp_from_pore = pore_pressure - internal_pressure;
          masp_from_mud = mud_hydrostatic_pressure - internal_pressure
      in max (max masp_from_pore masp_from_mud) 0)"

definition calculate_collapse_load :: "casing_data_calc \<Rightarrow> real" where
  "calculate_collapse_load self =
     (let external_pressure = set_depth self * mud_weight self * 0.052;
          internal_pressure = 0
      in external_pressure - internal_pressure)"

text \<open>
  The two design-factor methods read an attribute that \<open>calculateData\<close> has assigned before
  it calls them; on an attribute that is still \<^verbatim>\<open>None\<close> the division raises a TypeError.
\<close>

definition calculate_collapse_df :: "casing_data_calc \<Rightarrow> error + pyfloat" where
  "calculate_collapse_df self =
     (case collapse_load self of
        None \<Rightarrow> Inl TypeError
      | Some load \<Rightarrow>
          if load \<noteq> 0 then as_float (truediv (collapse_strength self) load) else Inr PosInf)"

definition calculate_burst_pressure :: "casing_data_calc \<Rightarrow> error + real" where
  "calculate_burst_pressure self =
     truediv (2 * burst_strength self * wall_thickness self) (csg_size self)"

definition calculate_neutral_point :: "casing_data_calc \<Rightarrow> real" where
  "calculate_neutral_point self = tvd self * (1 - mud_weight self / 65.4)"

definition calculate_tension_air :: "casing_data_calc \<Rightarrow> real" where
  "calculate_tension_air self =
     (let total_weight =
            (if set_depth self = max_md_depth self
             then csg_weight self * \<bar>set_depth self - tol self\<bar>
             else csg_weight self * set_depth self)
      in total_weight / 1000)"

definition calculate_tension_buoyed :: "casing_data_calc \<Rightarrow> real" where
  "calculate_tension_buoyed self =
     (let result1 = math_pi / 4 * (csg_size self ^ 2 - csg_internal_diameter self ^ 2);
          result2 = (if set_depth self = max_md_depth self
                     then 0.05194806 * mud_weight self * \<bar>tvd self - max_tvd_depth self\<bar>
                     else 0.05194806 * mud_weight self * tvd self);
          result3 = (if set_depth self = max_md_depth self
                     then csg_weight self * \<bar>set_depth self - tol self\<bar>
                     else csg_weight self * set_depth self);
          output = (result3 - result2 * result1) / 1000
      in output)"

definition calculate_tension_df :: "casing_data_calc \<Rightarrow> error + pyfloat" where
  "calculate_tension_df self =
     (case tension_buoyed self of
        None \<Rightarrow> Inl TypeError
      | Some load \<Rightarrow>
          if load = 0 then Inr PosInf
          else as_float (truediv (tension_strength self) load))"

text \<open>
  \<open>calculateData\<close> assigns the attributes in the order of the source; an exception of a
  method ends it. The results dictionary holds floats only, \<open>PosInf\<close> for an infinite
  design factor.
\<close>

definition calculateData :: "casing_data_calc \<Rightarrow> error + casing_data_calc" where
  "calculateData self =
     (let self1 = self\<lparr>frac_init_pressure := Some (frac_gradient self * tvd self)\<rparr>;
          self2 = self1\<lparr>annular_volume := Some (calculate_cement_volume self1)\<rparr>
      in case calculate_cement_height self2 of
           Inl e \<Rightarrow> Inl e
         | Inr h \<Rightarrow>
      (let self3 = self2\<lparr>cmt_height := Some h\<rparr>
       in case calculate_toc self3 of
            Inl e \<Rightarrow> Inl e
          | Inr t \<Rightarrow>
      (let self4 = self3\<lparr>toc := Some t\<rparr>;
           self5 = self4\<lparr>masp := Some (calculate_masp self4)\<rparr>;
           self6 = self5\<lparr>collapse_load := Some (calculate_collapse_load self5)\<rparr>
       in case calculate_collapse_df self6 of
            Inl e \<Rightarrow> Inl e
          | Inr cdf \<Rightarrow>
      (let self7 = self6\<lparr>collapse_df := Some cdf\<rparr>;
           self8 = self7\<lparr>neutral_point := Some (calculate_neutral_point self7)\<rparr>;
           self9 = self8\<lparr>tension_air := Some (calculate_tension_air self8)\<rparr>;
           self10 = self9\<lparr>tension_buoyed := Some (calculate_tension_buoyed self9)\<rparr>
       in case calculate_tension_df self10 of
            Inl e \<Rightarrow> Inl e
          | Inr tdf \<Rightarrow>
      (let self11 = self10\<lparr>tension_df := Some tdf\<rparr>
       in Inr (self11\<lparr>results :=
            [(''cement_cu_ft'', Finite (cement_cu_ft self11)),
             (''cement_height'', Finite h),
             (''toc'', Finite t),
             (''masp'', Finite (calculate_masp self4)),
             (''collapse_strength'', Finite (collapse_strength self11)),
             (''collapse_load'', Finite (calculate_collapse_load self5)),
             (''collapse_df'', cdf),
             (''burst_strength'', Finite (burst_strength self11)),
             (''neutral_point'', Finite (calculate_neutral_point self7)),
             (''tension_strength'', Finite (tension_strength self11)),
             (''tension_df'', tdf),
             (''tension_air'', Finite (calculate_tension_air self8)),
             (''tension_buoyed'', Finite (calculate_tension_buoyed self9)),
             (''frac_init_pressure'', Finite (frac_gradient self * tvd self))]\<rparr>))))))"

text \<open>The constructor stores the two dictionaries' values and runs the calculation.\<close>

definition CasingDataCalc_attributes :: "casing \<Rightarrow> univ_params \<Rightarrow> casing_data_calc" where
  "CasingDataCalc_attributes casing univ_params =
       \<lparr>tension_df = None, tension_buoyed = None, tension_air = None, neutral_point = None,
        collapse_df = None, masp = None, collapse_load = None, toc = None, cmt_height = None,
        annular_volume = None, frac_init_pressure = None, results = [],
        tvd = casing.tvd casing,
        washout = casing.washout casing,
        int_gradient = casing.int_gradient casing,
        mud_weight = casing.mud_weight casing,
        backup_mud = casing.backup_mud casing,
        cement_cu_ft = casing.cement_cu_ft casing,
        hole_size = casing.hole_size casing,
        set_depth = casing.bottom casing,
        casing_top = casing.top casing,
        csg_weight = casing.weight casing,
        csg_size = casing.od casing,
        csg_grade = casing.grade casing,
        csg_collar = casing.connection casing,
        body_yield = casing.body_yield casing,
        burst_strength = casing.burst_strength casing,
        wall_thickness = casing.wall_thickness casing,
        csg_internal_diameter = casing.csg_internal_diameter casing,
        collapse_strength = casing.collapse_pressure casing,
        tension_strength = casing.tension_strength casing,
        tol = univ_params.tol univ_params,
        frac_gradient = univ_params.frac_gradient univ_params,
        max_md_depth = univ_params.max_md_depth univ_params,
        max_tvd_depth = univ_params.max_tvd_depth univ_params\<rparr>"

definition CasingDataCalc :: "casing \<Rightarrow> univ_params \<Rightarrow> error + casing_data_calc" where
  "CasingDataCalc casing univ_params =
     calculateData (CasingDataCalc_attributes casing univ_params)"

definition get_results :: "casing_data_calc \<Rightarrow> (string \<times> pyfloat) list" where
  "get_results self = results self"

text \<open>
  The example data of the docstring of \<^verbatim>\<open>main\<close>: the well parameters and the surface and
  production rows of its tables, as the dictionaries \<^verbatim>\<open>main\<close> builds from them (the cement
  volume is lead quantity times lead yield plus tail quantity times tail yield; the top of
  the first section of a top-down well is the well's top).
\<close>

definition example_univ_params :: univ_params where
  "example_univ_params =
     \<lparr>univ_params.tol = 9300, frac_gradient = 1, max_md_depth = 20500,
      max_tvd_depth = 9300\<rparr>"

definition example_surface :: casing where
  "example_surface =
     \<lparr>casing.tvd = 2500, washout = 10, int_gradient = 0.12, mud_weight = 11, backup_mud = 0,
      cement_cu_ft = 286 * 2.6 + 166 * 1.13, hole_size = 12.25, bottom = 2500, top = 100,
      weight = 36, od = 9.625, grade = ''J-55'', connection = ''LTC'', body_yield = 564,
      burst_strength = 3520, wall_thickness = 0.352, csg_internal_diameter = 8.921,
      collapse_pressure = 2020, tension_strength = 453\<rparr>"

definition example_production :: casing where
  "example_production =
     \<lparr>casing.tvd = 10250, washout = 4, int_gradient = 0.22, mud_weight = 15, backup_mud = 0,
      cement_cu_ft = 613 * 1.38 + 0 * 0, hole_size = 6.125, bottom = 20500, top = 9500,
      weight = 18, od = 5, grade = ''P-110'', connection = ''BTC'', body_yield = 580,
      burst_strength = 13620, wall_thickness = 0.362, csg_internal_diameter = 4.276,
      collapse_pressure = 13470, tension_strength = 606\<rparr>"

section \<open>The orchestrator: burst pass and re-keying\<close>

text \<open>
  The second half of \<^verbatim>\<open>calcParametersContained\<close>, after every section has received the
  results of its \<open>CasingDataCalc\<close>: the sections dictionary, keyed \<open>0..n-1\<close>, is the list of
  its values. The body of the loop over adjacent pairs reads the sections \<open>i\<close> and \<open>i + 1\<close>
  (a missing key raises) and updates section \<open>i\<close>.
\<close>

definition burst_pair_step :: "nat \<Rightarrow> section_dict list \<Rightarrow> error + section_dict list" where
  "burst_pair_step i secs =
     (if i + 1 < length secs then
        (let maps = calculate_maps (secs ! i) (secs ! (i + 1));
             burst_load = calculate_burst_load (secs ! i) (secs ! (i + 1)) maps
         in case (if burst_load > 0
                  then as_float (truediv (section_dict.burst_strength (secs ! i)) burst_load)
                  else Inr PosInf) of
              Inl e \<Rightarrow> Inl e
            | Inr df \<Rightarrow>
                Inr (secs[i := (secs ! i)\<lparr>section_dict.maps := Some maps,
                                                   section_dict.burst_load := Some burst_load,
                                                   section_dict.burst_df := Some df\<rparr>]))
      else Inl KeyError)"

fun burst_pair_loop :: "nat list \<Rightarrow> section_dict list \<Rightarrow> error + section_dict list" where
  "burst_pair_loop [] secs = Inr secs"
| "burst_pair_loop (i # rest) secs =
     (case burst_pair_step i secs of
        Inl e \<Rightarrow> Inl e
      | Inr secs' \<Rightarrow> burst_pair_loop rest secs')"

definition calcParametersContained_burst :: "section_dict list \<Rightarrow> error + section_dict list" where
  "calcParametersContained_burst secs =
     (let secs_num = length secs
      in if secs_num > 1 then
           (case burst_pair_loop [0..<length secs - 1] secs of
              Inl e \<Rightarrow> Inl e
            | Inr secs' \<Rightarrow>
                (let counter = length secs - 1
                 in case calculateSoloMapsBurstLoadDF (secs' ! counter) of
                      Inl e \<Rightarrow> Inl e
                    | Inr solo_data \<Rightarrow> Inr (secs'[counter := solo_data])))
         else
           (case secs of
              [] \<Rightarrow> Inl KeyError
            | s # _ \<Rightarrow>
                (case calculateSoloMapsBurstLoadDF s of
                   Inl e \<Rightarrow> Inl e
                 | Inr solo_data \<Rightarrow> Inr (secs[0 := solo_data]))))"

text \<open>
  \<^verbatim>\<open>create_variables\<close>: for \<open>i\<close> in \<open>range(len(variables))\<close>, the section popped at key \<open>i\<close> is
  stored under the label \<open>variables[i]\<close>.
\<close>

fun create_variables_loop ::
  "nat \<Rightarrow> string list \<Rightarrow> (key \<times> 'v) list \<Rightarrow> error + (key \<times> 'v) list" where
  "create_variables_loop i [] secs = Inr secs"
| "create_variables_loop i (label # variables) secs =
     (case dict_pop secs (Idx i) of
        None \<Rightarrow> Inl KeyError
      | Some (x, secs') \<Rightarrow>
          create_variables_loop (i + 1) variables (dict_set secs' (Lbl label) x))"

definition create_variables :: "(key \<times> 'v) list \<Rightarrow> string list \<Rightarrow> error + (key \<times> 'v) list" where
  "create_variables secs variables = create_variables_loop 0 variables secs"

section \<open>Properties of the per-section calculator\<close>

lemma calculate_cement_height_cases:
  "calculate_cement_height self =
     (if csg_size self \<le> 0 then Inr 0
      else if (hole_size self * (1 + washout self / 100)) ^ 2 - csg_size self ^ 2 = 0
      then Inl ZeroDivisionError
      else Inr (1 / (((hole_size self * (1 + washout self / 100)) ^ 2 - csg_size self ^ 2) / 183.35)
                  * cement_cu_ft self))"
  by (simp add: calculate_cement_height_def truediv_def Let_def)

lemma calculate_cement_height_upd [simp]:
  "calculate_cement_height (self\<lparr>frac_init_pressure := a\<rparr>) = calculate_cement_height self"
  "calculate_cement_height (self\<lparr>annular_volume := b\<rparr>) = calculate_cement_height self"
  "calculate_cement_height (self\<lparr>cmt_height := c\<rparr>) = calculate_cement_height self"
  by (simp_all add: calculate_cement_height_cases)

lemma calculate_toc_cases:
  "calculate_toc self =
     (case calculate_cement_height self of
        Inl e \<Rightarrow> Inl e
      | Inr h \<Rightarrow> Inr (if set_depth self - h < 0 then 0 else set_depth self - h))"
  by (simp add: calculate_toc_def Let_def split: sum.splits)

lemma calculate_collapse_df_Some:
  "collapse_load self = Some l \<Longrightarrow>
   calculate_collapse_df self =
     Inr (if l \<noteq> 0 then Finite (collapse_strength self / l) else PosInf)"
  by (simp add: calculate_collapse_df_def truediv_def as_float_def)

lemma calculate_tension_df_Some:
  "tension_buoyed self = Some l \<Longrightarrow>
   calculate_tension_df self =
     Inr (if l \<noteq> 0 then Finite (tension_strength self / l) else PosInf)"
  by (simp add: calculate_tension_df_def truediv_def as_float_def)

lemma calculate_cement_volume_upd [simp]:
  "calculate_cement_volume (self\<lparr>tension_df := x0\<rparr>) = calculate_cement_volume self"
  "calculate_cement_volume (self\<lparr>tension_buoyed := x1\<rparr>) = calculate_cement_volume self"
  "calculate_cement_volume (self\<lparr>tension_air := x2\<rparr>) = calculate_cement_volume self"
  "calculate_cement_volume (self\<lparr>neutral_point := x3\<rparr>) = calculate_cement_volume self"
  "calculate_cement_volume (self\<lparr>collapse_df := x4\<rparr>) = calculate_cement_volume self"
  "calculate_cement_volume (self\<lparr>masp := x5\<rparr>) = calculate_cement_volume self"
  "calculate_cement_volume (self\<lparr>collapse_load := x6\<rparr>) = calculate_cement_volume self"
  "calculate_cement_volume (self\<lparr>toc := x7\<rparr>) = calculate_cement_volume self"
  "calculate_cement_volume (self\<lparr>cmt_height := x8\<rparr>) = calculate_cement_volume self"
  "calculate_cement_volume (self\<lparr>annular_volume := x9\<rparr>) = calculate_cement_volume self"
  "calculate_cement_volume (self\<lparr>frac_init_pressure := x10\<rparr>) = calculate_cement_volume self"
  "calculate_cement_volume (self\<lparr>results := x11\<rparr>) = calculate_cement_volume self"
  by (simp_all add: calculate_cement_volume_def)

lemma calculate_masp_upd [simp]:
  "calculate_masp (self\<lparr>tension_df := x0\<rparr>) = calculate_masp self"
  "calculate_masp (self\<lparr>tension_buoyed := x1\<rparr>) = calculate_masp self"
  "calculate_masp (self\<lparr>tension_air := x2\<rparr>) = calculate_masp self"
  "calculate_masp (self\<lparr>neutral_point := x3\<rparr>) = calculate_masp self"
  "calculate_masp (self\<lparr>collapse_df := x4\<rparr>) = calculate_masp self"
  "calculate_masp (self\<lparr>masp := x5\<rparr>) = calculate_masp self"
  "calculate_masp (self\<lparr>collapse_load := x6\<rparr>) = calculate_masp self"
  "calculate_masp (self\<lparr>toc := x7\<rparr>) = calculate_masp self"
  "calculate_masp (self\<lparr>cmt_height := x8\<rparr>) = calculate_masp self"
  "calculate_masp (self\<lparr>annular_volume := x9\<rparr>) = calculate_masp self"
  "calculate_masp (self\<lparr>frac_init_pressure := x10\<rparr>) = calculate_masp self"
  "calculate_masp (self\<lparr>results := x11\<rparr>) = calculate_masp self"
  by (simp_all add: calculate_masp_def)

lemma calculate_collapse_load_upd [simp]:
  "calculate_collapse_load (self\<lparr>tension_df := x0\<rparr>) = calculate_collapse_load self"
  "calculate_collapse_load (self\<lparr>tension_buoyed := x1\<rparr>) = calculate_collapse_load self"
  "calculate_collapse_load (self\<lparr>tension_air := x2\<rparr>) = calculate_collapse_load self"
  "calculate_collapse_load (self\<lparr>neutral_point := x3\<rparr>) = calculate_collapse_load self"
  "calculate_collapse_load (self\<lparr>collapse_df := x4\<rparr>) = calculate_collapse_load self"
  "calculate_collapse_load (self\<lparr>masp := x5\<rparr>) = calculate_collapse_load self"
  "calculate_collapse_load (self\<lparr>collapse_load := x6\<rparr>) = calculate_collapse_load self"
  "calculate_collapse_load (self\<lparr>toc := x7\<rparr>) = calculate_collapse_load self"
  "calculate_collapse_load (self\<lparr>cmt_height := x8\<rparr>) = calculate_collapse_load self"
  "calculate_collapse_load (self\<lparr>annular_volume := x9\<rparr>) = calculate_collapse_load self"
  "calculate_collapse_load (self\<lparr>frac_init_pressure := x10\<rparr>) = calculate_collapse_load self"
  "calculate_collapse_load (self\<lparr>results := x11\<rparr>) = calculate_collapse_load self"
  by (simp_all add: calculate_collapse_load_def)

lemma calculate_neutral_point_upd [simp]:
  "calculate_neutral_point (self\<lparr>tension_df := x0\<rparr>) = calculate_neutral_point self"
  "calculate_neutral_point (self\<lparr>tension_buoyed := x1\<rparr>) = calculate_neutral_point self"
  "calculate_neutral_point (self\<lparr>tension_air := x2\<rparr>) = calculate_neutral_point self"
  "calculate_neutral_point (self\<lparr>neutral_point := x3\<rparr>) = calculate_neutral_point self"
  "calculate_neutral_point (self\<lparr>collapse_df := x4\<rparr>) = calculate_neutral_point self"
  "calculate_neutral_point (self\<lparr>masp := x5\<rparr>) = calculate_neutral_point self"
  "calculate_neutral_point (self\<lparr>collapse_load := x6\<rparr>) = calculate_neutral_point self"
  "calculate_neutral_point (self\<lparr>toc := x7\<rparr>) = calculate_neutral_point self"
  "calculate_neutral_point (self\<lparr>cmt_height := x8\<rparr>) = calculate_neutral_point self"
  "calculate_neutral_point (self\<lparr>annular_volume := x9\<rparr>) = calculate_neutral_point self"
  "calculate_neutral_point (self\<lparr>frac_init_pressure := x10\<rparr>) = calculate_neutral_point self"
  "calculate_neutral_point (self\<lparr>results := x11\<rparr>) = calculate_neutral_point self"
  by (simp_all add: calculate_neutral_point_def)

lemma calculate_tension_air_upd [simp]:
  "calculate_tension_air (self\<lparr>tension_df := x0\<rparr>) = calculate_tension_air self"
  "calculate_tension_air (self\<lparr>tension_buoyed := x1\<rparr>) = calculate_tension_air self"
  "calculate_tension_air (self\<lparr>tension_air := x2\<rparr>) = calculate_tension_air self"
  "calculate_tension_air (self\<lparr>neutral_point := x3\<rparr>) = calculate_tension_air self"
  "calculate_tension_air (self\<lparr>collapse_df := x4\<rparr>) = calculate_tension_air self"
  "calculate_tension_air (self\<lparr>masp := x5\<rparr>) = calculate_tension_air self"
  "calculate_tension_air (self\<lparr>collapse_load := x6\<rparr>) = calculate_tension_air self"
  "calculate_tension_air (self\<lparr>toc := x7\<rparr>) = calculate_tension_air self"
  "calculate_tension_air (self\<lparr>cmt_height := x8\<rparr>) = calculate_tension_air self"
  "calculate_tension_air (self\<lparr>annular_volume := x9\<rparr>) = calculate_tension_air self"
  "calculate_tension_air (self\<lparr>frac_init_pressure := x10\<rparr>) = calculate_tension_air self"
  "calculate_tension_air (self\<lparr>results := x11\<rparr>) = calculate_tension_air self"
  by (simp_all add: calculate_tension_air_def)

lemma calculate_tension_buoyed_upd [simp]:
  "calculate_tension_buoyed (self\<lparr>tension_df := x0\<rparr>) = calculate_tension_buoyed self"
  "calculate_tension_buoyed (self\<lparr>tension_buoyed := x1\<rparr>) = calculate_tension_buoyed self"
  "calculate_tension_buoyed (self\<lparr>tension_air := x2\<rparr>) = calculate_tension_buoyed self"
  "calculate_tension_buoyed (self\<lparr>neutral_point := x3\<rparr>) = calculate_tension_buoyed self"
  "calculate_tension_buoyed (self\<lparr>collapse_df := x4\<rparr>) = calculate_tension_buoyed self"
  "calculate_tension_buoyed (self\<lparr>masp := x5\<rparr>) = calculate_tension_buoyed self"
  "calculate_tension_buoyed (self\<lparr>collapse_load := x6\<rparr>) = calculate_tension_buoyed self"
  "calculate_tension_buoyed (self\<lparr>toc := x7\<rparr>) = calculate_tension_buoyed self"
  "calculate_tension_buoyed (self\<lparr>cmt_height := x8\<rparr>) = calculate_tension_buoyed self"
  "calculate_tension_buoyed (self\<lparr>annular_volume := x9\<rparr>) = calculate_tension_buoyed self"
  "calculate_tension_buoyed (self\<lparr>frac_init_pressure := x10\<rparr>) = calculate_tension_buoyed self"
  "calculate_tension_buoyed (self\<lparr>results := x11\<rparr>) = calculate_tension_buoyed self"
  by (simp_all add: calculate_tension_buoyed_def)

lemma calculateData_Inl:
  "calculate_cement_height self = Inl e \<Longrightarrow> calculateData self = Inl e"
  by (simp add: calculateData_def Let_def)

lemma calculateData_Inr:
  "calculate_cement_height self = Inr h \<Longrightarrow>
   calculateData self =
     Inr (self\<lparr>frac_init_pressure := Some (frac_gradient self * tvd self),
               annular_volume := Some (calculate_cement_volume self),
               cmt_height := Some h,
               toc := Some (if set_depth self - h < 0 then 0 else set_depth self - h),
               masp := Some (calculate_masp self),
               collapse_load := Some (calculate_collapse_load self),
               collapse_df :=
                 Some (if calculate_collapse_load self \<noteq> 0
                       then Finite (collapse_strength self / calculate_collapse_load self)
                       else PosInf),
               neutral_point := Some (calculate_neutral_point self),
               tension_air := Some (calculate_tension_air self),
               tension_buoyed := Some (calculate_tension_buoyed self),
               tension_df :=
                 Some (if calculate_tension_buoyed self \<noteq> 0
                       then Finite (tension_strength self / calculate_tension_buoyed self)
                       else PosInf),
               results :=
                 [(''cement_cu_ft'', Finite (cement_cu_ft self)),
                  (''cement_height'', Finite h),
                  (''toc'', Finite (if set_depth self - h < 0 then 0 else set_depth self - h)),
                  (''masp'', Finite (calculate_masp self)),
                  (''collapse_strength'', Finite (collapse_strength self)),
                  (''collapse_load'', Finite (calculate_collapse_load self)),
                  (''collapse_df'',
                     if calculate_collapse_load self \<noteq> 0
                     then Finite (collapse_strength self / calculate_collapse_load self)
                     else PosInf),
                  (''burst_strength'', Finite (burst_strength self)),
                  (''neutral_point'', Finite (calculate_neutral_point self)),
                  (''tension_strength'', Finite (tension_strength self)),
                  (''tension_df'',
                     if calculate_tension_buoyed self \<noteq> 0
                     then Finite (tension_strength self / calculate_tension_buoyed self)
                     else PosInf),
                  (''tension_air'', Finite (calculate_tension_air self)),
                  (''tension_buoyed'', Finite (calculate_tension_buoyed self)),
                  (''frac_init_pressure'', Finite (frac_gradient self * tvd self))]\<rparr>)"
  by (simp add: calculateData_def Let_def calculate_toc_cases calculate_collapse_df_Some
      calculate_tension_df_Some)

lemma calculateData_error:
  "calculateData self = Inl e \<longleftrightarrow> calculate_cement_height self = Inl e"
  by (cases "calculate_cement_height self") (simp_all add: calculateData_Inl calculateData_Inr)

lemma calculateData_design_factors:
  assumes "calculateData self = Inr obj"
  shows "collapse_load obj = Some (calculate_collapse_load self)"
    and "collapse_df obj =
           Some (if calculate_collapse_load self \<noteq> 0
                 then Finite (collapse_strength self / calculate_collapse_load self)
                 else PosInf)"
    and "tension_buoyed obj = Some (calculate_tension_buoyed self)"
    and "tension_df obj =
           Some (if calculate_tension_buoyed self \<noteq> 0
                 then Finite (tension_strength self / calculate_tension_buoyed self)
                 else PosInf)"
    and "map_of (results obj) ''collapse_load'' = Some (Finite (calculate_collapse_load self))"
    and "map_of (results obj) ''collapse_df'' = collapse_df obj"
    and "map_of (results obj) ''tension_buoyed'' = Some (Finite (calculate_tension_buoyed self))"
    and "map_of (results obj) ''tension_df'' = tension_df obj"
proof -
  obtain h where h: "calculate_cement_height self = Inr h"
    using assms calculateData_Inl [of self] by (cases "calculate_cement_height self") auto
  note eq = calculateData_Inr [OF h, unfolded assms, simplified]
  show "collapse_load obj = Some (calculate_collapse_load self)"
    by (subst eq) simp
  show cdf: "collapse_df obj =
           Some (if calculate_collapse_load self \<noteq> 0
                 then Finite (collapse_strength self / calculate_collapse_load self)
                 else PosInf)"
    by (subst eq) simp
  show "tension_buoyed obj = Some (calculate_tension_buoyed self)"
    by (subst eq) simp
  show tdf: "tension_df obj =
           Some (if calculate_tension_buoyed self \<noteq> 0
                 then Finite (tension_strength self / calculate_tension_buoyed self)
                 else PosInf)"
    by (subst eq) simp
  show "map_of (results obj) ''collapse_load'' = Some (Finite (calculate_collapse_load self))"
    by (subst eq) simp
  show "map_of (results obj) ''collapse_df'' = collapse_df obj"
    unfolding cdf by (subst eq) simp
  show "map_of (results obj) ''tension_buoyed'' = Some (Finite (calculate_tension_buoyed self))"
    by (subst eq) simp
  show "map_of (results obj) ''tension_df'' = tension_df obj"
    unfolding tdf by (subst eq) simp
qed

section \<open>Properties of the burst pass\<close>

text \<open>
  A section's stored burst design factor is guarded when it is the quotient of the burst
  strength by the stored burst load for a positive load, and infinity otherwise.
\<close>

definition burst_df_guarded :: "section_dict \<Rightarrow> bool" where
  "burst_df_guarded s =
     (\<exists>l. section_dict.burst_load s = Some l \<and>
          section_dict.burst_df s =
            Some (if 0 < l then Finite (section_dict.burst_strength s / l) else PosInf))"

lemma solo_guarded:
  "\<exists>s'. calculateSoloMapsBurstLoadDF s = Inr s' \<and> burst_df_guarded s'"
  by (simp add: calculateSoloMapsBurstLoadDF_def burst_df_guarded_def truediv_def as_float_def
      Let_def)

lemma burst_pair_step_eq:
  "i + 1 < length secs \<Longrightarrow>
   burst_pair_step i secs =
     Inr (secs[i := (secs ! i)
       \<lparr>section_dict.maps := Some (calculate_maps (secs ! i) (secs ! (i + 1))),
        section_dict.burst_load :=
          Some (calculate_burst_load (secs ! i) (secs ! (i + 1))
                  (calculate_maps (secs ! i) (secs ! (i + 1)))),
        section_dict.burst_df :=
          Some (if 0 < calculate_burst_load (secs ! i) (secs ! (i + 1))
                         (calculate_maps (secs ! i) (secs ! (i + 1)))
                then Finite (section_dict.burst_strength (secs ! i)
                             / calculate_burst_load (secs ! i) (secs ! (i + 1))
                                 (calculate_maps (secs ! i) (secs ! (i + 1))))
                else PosInf)\<rparr>])"
  by (simp add: burst_pair_step_def truediv_def as_float_def Let_def)

lemma burst_pair_step_guarded:
  assumes "i + 1 < length secs"
  shows "\<exists>s'. burst_pair_step i secs = Inr (secs[i := s']) \<and> burst_df_guarded s'"
proof -
  have "burst_df_guarded ((secs ! i)
       \<lparr>section_dict.maps := Some (calculate_maps (secs ! i) (secs ! (i + 1))),
        section_dict.burst_load :=
          Some (calculate_burst_load (secs ! i) (secs ! (i + 1))
                  (calculate_maps (secs ! i) (secs ! (i + 1)))),
        section_dict.burst_df :=
          Some (if 0 < calculate_burst_load (secs ! i) (secs ! (i + 1))
                         (calculate_maps (secs ! i) (secs ! (i + 1)))
                then Finite (section_dict.burst_strength (secs ! i)
                             / calculate_burst_load (secs ! i) (secs ! (i + 1))
                                 (calculate_maps (secs ! i) (secs ! (i + 1))))
                else PosInf)\<rparr>)"
    by (simp add: burst_df_guarded_def)
  with burst_pair_step_eq [OF assms] show ?thesis by blast
qed

lemma burst_pair_loop_append:
  "burst_pair_loop (xs @ ys) secs =
     (case burst_pair_loop xs secs of Inl e \<Rightarrow> Inl e | Inr r \<Rightarrow> burst_pair_loop ys r)"
  by (induction xs arbitrary: secs) (auto split: sum.splits)

lemma burst_pair_loop_guarded:
  "k + 1 \<le> length secs \<Longrightarrow>
   \<exists>r. burst_pair_loop [0..<k] secs = Inr r \<and> length r = length secs \<and>
       (\<forall>i<k. burst_df_guarded (r ! i))"
proof (induction k)
  case 0
  then show ?case by simp
next
  case (Suc k)
  then obtain r where r: "burst_pair_loop [0..<k] secs = Inr r" "length r = length secs"
    "\<forall>i<k. burst_df_guarded (r ! i)"
    by auto
  from Suc.prems r(2) have "k + 1 < length r" by simp
  from burst_pair_step_guarded [OF this]
  obtain s' where s': "burst_pair_step k r = Inr (r[k := s'])" "burst_df_guarded s'"
    by blast
  have "burst_pair_loop [0..<Suc k] secs = Inr (r[k := s'])"
    by (simp add: burst_pair_loop_append r(1) s'(1))
  moreover have "\<forall>i<Suc k. burst_df_guarded (r[k := s'] ! i)"
    using r(2,3) s'(2) Suc.prems by (auto simp add: nth_list_update less_Suc_eq)
  ultimately show ?case using r(2) by simp
qed

lemma calcParametersContained_burst_guarded:
  assumes "secs \<noteq> []"
  shows "\<exists>r. calcParametersContained_burst secs = Inr r \<and> length r = length secs \<and>
            (\<forall>s \<in> set r. burst_df_guarded s)"
proof (cases "1 < length secs")
  case True
  then have "(length secs - 1) + 1 \<le> length secs" by simp
  from burst_pair_loop_guarded [OF this]
  obtain r where r: "burst_pair_loop [0..<length secs - 1] secs = Inr r"
    "length r = length secs" "\<forall>i<length secs - 1. burst_df_guarded (r ! i)"
    by blast
  obtain s' where s': "calculateSoloMapsBurstLoadDF (r ! (length secs - 1)) = Inr s'"
    "burst_df_guarded s'"
    using solo_guarded by blast
  have eq: "calcParametersContained_burst secs = Inr (r[length secs - 1 := s'])"
    using True r(1) s'(1) by (simp add: calcParametersContained_burst_def Let_def)
  have "\<forall>i<length secs. burst_df_guarded (r[length secs - 1 := s'] ! i)"
    using r(2,3) s'(2) by (auto simp add: nth_list_update)
  then have "\<forall>s \<in> set (r[length secs - 1 := s']). burst_df_guarded s"
    using r(2) by (auto simp add: in_set_conv_nth)
  with eq r(2) show ?thesis by simp
next
  case False
  with assms obtain s where secs: "secs = [s]"
    by (cases secs) auto
  obtain s' where s': "calculateSoloMapsBurstLoadDF s = Inr s'" "burst_df_guarded s'"
    using solo_guarded by blast
  show ?thesis
    by (simp add: calcParametersContained_burst_def secs s')
qed

section \<open>Tension and cement height\<close>

text \<open>
  Claim C8. The air tension is \<open>csg_weight * set_depth / 1000\<close>, with
  \<open>\<bar>set_depth - tol\<bar>\<close> in place of \<open>set_depth\<close> when \<open>set_depth = max_md_depth\<close>. The buoyed
  tension is \<open>(weight_term - buoyancy_term * steel_area) / 1000\<close> with the steel area
  \<open>pi / 4 * (od\<^sup>2 - id\<^sup>2)\<close>, the buoyancy term \<open>0.05194806 * mud_weight * tvd\<close>
  (\<open>\<bar>tvd - max_tvd_depth\<bar>\<close> in place of \<open>tvd\<close> when \<open>set_depth = max_md_depth\<close>), and the
  weight term of the air tension.
\<close>

theorem tension_formulas:
  "calculate_tension_air self =
     csg_weight self
       * (if set_depth self = max_md_depth self then \<bar>set_depth self - tol self\<bar>
          else set_depth self) / 1000
   \<and> calculate_tension_buoyed self =
     (csg_weight self
        * (if set_depth self = max_md_depth self then \<bar>set_depth self - tol self\<bar>
           else set_depth self)
      - (0.05194806 * mud_weight self
           * (if set_depth self = max_md_depth self then \<bar>tvd self - max_tvd_depth self\<bar>
              else tvd self))
        * (pi / 4 * ((csg_size self)\<^sup>2 - (csg_internal_diameter self)\<^sup>2))) / 1000"
  by (simp add: calculate_tension_air_def calculate_tension_buoyed_def math_pi_def Let_def)

text \<open>
  Claim C10. With a positive outer diameter the cement height divides by
  \<open>((hole_size * (1 + washout / 100))\<^sup>2 - od\<^sup>2) / 183.35\<close>: when the washout-adjusted hole
  size equals the outer diameter the division raises ZeroDivisionError and no height is
  returned. The branch that returns 0 is taken exactly when the outer diameter is not
  positive.
\<close>

theorem cement_height_zero_division:
  "(0 < csg_size self \<and> hole_size self * (1 + washout self / 100) = csg_size self
      \<longrightarrow> calculate_cement_height self = Inl ZeroDivisionError)
   \<and> calculate_cement_height self =
       (if csg_size self \<le> 0 then Inr 0
        else if (hole_size self * (1 + washout self / 100))\<^sup>2 - (csg_size self)\<^sup>2 = 0
        then Inl ZeroDivisionError
        else Inr (1 / (((hole_size self * (1 + washout self / 100))\<^sup>2 - (csg_size self)\<^sup>2)
                         / 183.35) * cement_cu_ft self))"
  by (simp add: calculate_cement_height_cases)

theorem cement_height_zero_division_witness:
  "0 < csg_size ((CasingDataCalc_attributes example_surface example_univ_params)
                    \<lparr>hole_size := 8.75, washout := 10\<rparr>)
   \<and> hole_size ((CasingDataCalc_attributes example_surface example_univ_params)
                    \<lparr>hole_size := 8.75, washout := 10\<rparr>)
       * (1 + washout ((CasingDataCalc_attributes example_surface example_univ_params)
                    \<lparr>hole_size := 8.75, washout := 10\<rparr>) / 100)
     = csg_size ((CasingDataCalc_attributes example_surface example_univ_params)
                    \<lparr>hole_size := 8.75, washout := 10\<rparr>)
   \<and> calculate_cement_height ((CasingDataCalc_attributes example_surface example_univ_params)
                    \<lparr>hole_size := 8.75, washout := 10\<rparr>) = Inl ZeroDivisionError"
  using cement_height_zero_division
    [of "(CasingDataCalc_attributes example_surface example_univ_params)
           \<lparr>hole_size := 8.75, washout := 10\<rparr>"]
  by (simp add: CasingDataCalc_attributes_def example_surface_def)

section \<open>Design factors\<close>

text \<open>
  The surface and production rows again, as the sections the burst pass reads: the fracture
  initiation pressure is the fracture gradient times the true vertical depth.
\<close>

definition example_sections :: "section_dict list" where
  "example_sections =
     [\<lparr>section_dict.mud_weight = 11, backup_mud = 0, tvd = 2500, frac_init_pressure = 1 * 2500,
       int_gradient = 0.12, burst_strength = 3520, maps = None, burst_load = None,
       burst_df = None\<rparr>,
      \<lparr>section_dict.mud_weight = 15, backup_mud = 0, tvd = 10250,
       frac_init_pressure = 1 * 10250, int_gradient = 0.22, burst_strength = 13620,
       maps = None, burst_load = None, burst_df = None\<rparr>]"

lemma example_surface_cement_height:
  "calculate_cement_height (CasingDataCalc_attributes example_surface u)
     = Inr (1 / ((13.475\<^sup>2 - 9.625\<^sup>2) / 183.35) * (286 * 2.6 + 166 * 1.13))"
  by (simp add: calculate_cement_height_cases CasingDataCalc_attributes_def
      example_surface_def power2_eq_square)

lemma example_production_cement_height:
  "calculate_cement_height (CasingDataCalc_attributes example_production u)
     = Inr (1 / ((6.37\<^sup>2 - 5\<^sup>2) / 183.35) * (613 * 1.38))"
  by (simp add: calculate_cement_height_cases CasingDataCalc_attributes_def
      example_production_def power2_eq_square)

lemma burst_df_guarded_iff:
  assumes "burst_df_guarded s"
  shows "(section_dict.burst_df s = Some PosInf
            \<longleftrightarrow> (\<exists>l. section_dict.burst_load s = Some l \<and> l \<le> 0))
         \<and> ((\<exists>x. section_dict.burst_df s = Some (Finite x))
            \<longleftrightarrow> (\<exists>l. section_dict.burst_load s = Some l \<and> 0 < l))"
  using assms by (auto simp add: burst_df_guarded_def split: if_splits)

text \<open>
  Claim C1 (as amended). The collapse and tension design factors are infinite exactly when
  their load (the collapse load, the buoyed tension) is 0 and finite for every nonzero load.
  The burst design factor is infinite exactly when the burst load is zero or negative, and
  finite exactly when it is positive.
\<close>

theorem design_factor_infinite_iff:
  "(calculate_collapse_df (self\<lparr>collapse_load := Some l\<rparr>) = Inr PosInf \<longleftrightarrow> l = 0)
   \<and> ((\<exists>x. calculate_collapse_df (self\<lparr>collapse_load := Some l\<rparr>) = Inr (Finite x))
        \<longleftrightarrow> l \<noteq> 0)
   \<and> (calculate_tension_df (self\<lparr>tension_buoyed := Some l\<rparr>) = Inr PosInf \<longleftrightarrow> l = 0)
   \<and> ((\<exists>x. calculate_tension_df (self\<lparr>tension_buoyed := Some l\<rparr>) = Inr (Finite x))
        \<longleftrightarrow> l \<noteq> 0)
   \<and> (calculateData self = Inr obj \<longrightarrow>
        (collapse_df obj = Some PosInf \<longleftrightarrow> collapse_load obj = Some 0) \<and>
        ((\<exists>x. collapse_df obj = Some (Finite x))
           \<longleftrightarrow> (\<exists>c. collapse_load obj = Some c \<and> c \<noteq> 0)) \<and>
        (tension_df obj = Some PosInf \<longleftrightarrow> tension_buoyed obj = Some 0) \<and>
        ((\<exists>x. tension_df obj = Some (Finite x))
           \<longleftrightarrow> (\<exists>c. tension_buoyed obj = Some c \<and> c \<noteq> 0)))
   \<and> (calculateSoloMapsBurstLoadDF s = Inr s' \<longrightarrow>
        (section_dict.burst_df s' = Some PosInf
           \<longleftrightarrow> (\<exists>b. section_dict.burst_load s' = Some b \<and> b \<le> 0)) \<and>
        ((\<exists>x. section_dict.burst_df s' = Some (Finite x))
           \<longleftrightarrow> (\<exists>b. section_dict.burst_load s' = Some b \<and> 0 < b)))
   \<and> (calcParametersContained_burst secs = Inr r \<longrightarrow>
        (\<forall>t \<in> set r.
           (section_dict.burst_df t = Some PosInf
              \<longleftrightarrow> (\<exists>b. section_dict.burst_load t = Some b \<and> b \<le> 0)) \<and>
           ((\<exists>x. section_dict.burst_df t = Some (Finite x))
              \<longleftrightarrow> (\<exists>b. section_dict.burst_load t = Some b \<and> 0 < b))))"
proof -
  have c: "calculate_collapse_df (self\<lparr>collapse_load := Some l\<rparr>) =
     Inr (if l \<noteq> 0 then Finite (collapse_strength self / l) else PosInf)"
    using calculate_collapse_df_Some [of "self\<lparr>collapse_load := Some l\<rparr>" l] by simp
  have t: "calculate_tension_df (self\<lparr>tension_buoyed := Some l\<rparr>) =
     Inr (if l \<noteq> 0 then Finite (tension_strength self / l) else PosInf)"
    using calculate_tension_df_Some [of "self\<lparr>tension_buoyed := Some l\<rparr>" l] by simp
  have 1: "calculate_collapse_df (self\<lparr>collapse_load := Some l\<rparr>) = Inr PosInf \<longleftrightarrow> l = 0"
    unfolding c by simp
  have 2: "(\<exists>x. calculate_collapse_df (self\<lparr>collapse_load := Some l\<rparr>) = Inr (Finite x))
        \<longleftrightarrow> l \<noteq> 0"
    unfolding c by simp
  have 3: "calculate_tension_df (self\<lparr>tension_buoyed := Some l\<rparr>) = Inr PosInf \<longleftrightarrow> l = 0"
    unfolding t by simp
  have 4: "(\<exists>x. calculate_tension_df (self\<lparr>tension_buoyed := Some l\<rparr>) = Inr (Finite x))
        \<longleftrightarrow> l \<noteq> 0"
    unfolding t by simp
  have 5: "calculateData self = Inr obj \<longrightarrow>
        (collapse_df obj = Some PosInf \<longleftrightarrow> collapse_load obj = Some 0) \<and>
        ((\<exists>x. collapse_df obj = Some (Finite x))
           \<longleftrightarrow> (\<exists>c. collapse_load obj = Some c \<and> c \<noteq> 0)) \<and>
        (tension_df obj = Some PosInf \<longleftrightarrow> tension_buoyed obj = Some 0) \<and>
        ((\<exists>x. tension_df obj = Some (Finite x))
           \<longleftrightarrow> (\<exists>c. tension_buoyed obj = Some c \<and> c \<noteq> 0))"
  proof
    assume a: "calculateData self = Inr obj"
    show "(collapse_df obj = Some PosInf \<longleftrightarrow> collapse_load obj = Some 0) \<and>
        ((\<exists>x. collapse_df obj = Some (Finite x))
           \<longleftrightarrow> (\<exists>c. collapse_load obj = Some c \<and> c \<noteq> 0)) \<and>
        (tension_df obj = Some PosInf \<longleftrightarrow> tension_buoyed obj = Some 0) \<and>
        ((\<exists>x. tension_df obj = Some (Finite x))
           \<longleftrightarrow> (\<exists>c. tension_buoyed obj = Some c \<and> c \<noteq> 0))"
      by (simp add: calculateData_design_factors(1-4) [OF a])
  qed
  have 6: "calculateSoloMapsBurstLoadDF s = Inr s' \<longrightarrow>
        (section_dict.burst_df s' = Some PosInf
           \<longleftrightarrow> (\<exists>b. section_dict.burst_load s' = Some b \<and> b \<le> 0)) \<and>
        ((\<exists>x. section_dict.burst_df s' = Some (Finite x))
           \<longleftrightarrow> (\<exists>b. section_dict.burst_load s' = Some b \<and> 0 < b))"
    using solo_guarded [of s] burst_df_guarded_iff [of s'] by auto
  have 7: "calcParametersContained_burst secs = Inr r \<longrightarrow>
        (\<forall>t \<in> set r.
           (section_dict.burst_df t = Some PosInf
              \<longleftrightarrow> (\<exists>b. section_dict.burst_load t = Some b \<and> b \<le> 0)) \<and>
           ((\<exists>x. section_dict.burst_df t = Some (Finite x))
              \<longleftrightarrow> (\<exists>b. section_dict.burst_load t = Some b \<and> 0 < b)))"
  proof (intro impI ballI)
    fix t
    assume a: "calcParametersContained_burst secs = Inr r" and t: "t \<in> set r"
    have "secs \<noteq> []"
      using a by (auto simp add: calcParametersContained_burst_def)
    from calcParametersContained_burst_guarded [OF this] a t
    have "burst_df_guarded t" by auto
    from burst_df_guarded_iff [OF this]
    show "(section_dict.burst_df t = Some PosInf
              \<longleftrightarrow> (\<exists>b. section_dict.burst_load t = Some b \<and> b \<le> 0)) \<and>
           ((\<exists>x. section_dict.burst_df t = Some (Finite x))
              \<longleftrightarrow> (\<exists>b. section_dict.burst_load t = Some b \<and> 0 < b))" .
  qed
  from 1 2 3 4 5 6 7 show ?thesis by blast
qed

theorem design_factor_infinite_iff_witness:
  "\<exists>obj s' r.
     calculateData (CasingDataCalc_attributes example_surface example_univ_params) = Inr obj
     \<and> calculateSoloMapsBurstLoadDF (hd example_sections) = Inr s'
     \<and> calcParametersContained_burst example_sections = Inr r
     \<and> r \<noteq> []
     \<and> (collapse_df obj = Some PosInf \<longleftrightarrow> collapse_load obj = Some 0)
     \<and> (tension_df obj = Some PosInf \<longleftrightarrow> tension_buoyed obj = Some 0)
     \<and> (section_dict.burst_df s' = Some PosInf
           \<longleftrightarrow> (\<exists>b. section_dict.burst_load s' = Some b \<and> b \<le> 0))
     \<and> (\<forall>t \<in> set r.
           section_dict.burst_df t = Some PosInf
             \<longleftrightarrow> (\<exists>b. section_dict.burst_load t = Some b \<and> b \<le> 0))"
proof -
  obtain obj where obj:
    "calculateData (CasingDataCalc_attributes example_surface example_univ_params) = Inr obj"
    using calculateData_Inr [OF example_surface_cement_height] by blast
  obtain s' where s': "calculateSoloMapsBurstLoadDF (hd example_sections) = Inr s'"
    using solo_guarded by blast
  have "example_sections \<noteq> []"
    by (simp add: example_sections_def)
  from calcParametersContained_burst_guarded [OF this]
  obtain r where r: "calcParametersContained_burst example_sections = Inr r"
    "length r = length example_sections"
    by blast
  from r(2) have ne: "r \<noteq> []"
    by (auto simp add: example_sections_def)
  note th = design_factor_infinite_iff
         [where self = "CasingDataCalc_attributes example_surface example_univ_params"
            and obj = obj and s = "hd example_sections" and s' = s'
            and secs = example_sections and r = r]
  note tail = th [THEN conjunct2, THEN conjunct2, THEN conjunct2, THEN conjunct2]
  note p5 = tail [THEN conjunct1, THEN mp, OF obj]
  note p6 = tail [THEN conjunct2, THEN conjunct1, THEN mp, OF s']
  note p7 = tail [THEN conjunct2, THEN conjunct2, THEN mp, OF r(1)]
  have "\<forall>t \<in> set r.
           section_dict.burst_df t = Some PosInf
             \<longleftrightarrow> (\<exists>b. section_dict.burst_load t = Some b \<and> b \<le> 0)"
    using p7 by fast
  with obj s' r(1) ne p5 [THEN conjunct1] p5 [THEN conjunct2, THEN conjunct2, THEN conjunct1]
    p6 [THEN conjunct1]
  show ?thesis by (intro exI conjI)
qed

text \<open>
  The claim as written fails for the burst design factor: with a backup mud heavier than
  the mud the burst load is negative, not 0, and the design factor is infinite.
\<close>

theorem burst_df_infinite_counterexample:
  "calculateSoloMapsBurstLoadDF
     \<lparr>section_dict.mud_weight = 11, backup_mud = 12, tvd = 2500, frac_init_pressure = 2500,
      int_gradient = 0.12, burst_strength = 3520, maps = None, burst_load = None,
      burst_df = None\<rparr>
   = Inr \<lparr>section_dict.mud_weight = 11, backup_mud = 12, tvd = 2500,
          frac_init_pressure = 2500, int_gradient = 0.12, burst_strength = 3520,
          maps = Some 1428.57165, burst_load = Some (- 129.87015), burst_df = Some PosInf\<rparr>
   \<and> (- 129.87015 :: real) \<noteq> 0"
  by (simp add: calculateSoloMapsBurstLoadDF_def truediv_def as_float_def Let_def)

lemma short_liner_tension_buoyed:
  "calculate_tension_buoyed
     (CasingDataCalc_attributes example_production (example_univ_params\<lparr>univ_params.tol := 20400\<rparr>))
   = (18 * 100 - 0.05194806 * 15 * 950 * (pi / 4 * (5\<^sup>2 - 4.276\<^sup>2))) / 1000"
  by (simp add: calculate_tension_buoyed_def CasingDataCalc_attributes_def
      example_production_def example_univ_params_def math_pi_def Let_def)

lemma short_liner_negative:
  "(18 * 100 - 0.05194806 * 15 * 950 * (pi / 4 * (5\<^sup>2 - 4.276\<^sup>2))) / 1000 < 0"
  using pi_ge_two by (simp add: power2_eq_square)

text \<open>
  Claim C2 (as amended). The collapse and tension design factors are \<open>strength / load\<close> for
  every nonzero load, negative loads included, and infinity for a zero load; the burst design
  factor, of the solo function and of every section after the burst pass, is
  \<open>strength / load\<close> for a positive load and infinity for a zero or negative load. No design
  factor computation raises: the methods return a value for every load, the burst pass
  of a non-empty well returns, and \<open>calculateData\<close> fails only with the exception of the cement
  height.
\<close>

theorem design_factor_values:
  "calculate_collapse_df (self\<lparr>collapse_load := Some l\<rparr>) =
     Inr (if l \<noteq> 0 then Finite (collapse_strength self / l) else PosInf)
   \<and> calculate_tension_df (self\<lparr>tension_buoyed := Some l\<rparr>) =
     Inr (if l \<noteq> 0 then Finite (tension_strength self / l) else PosInf)
   \<and> (calculateData self = Inl e \<longleftrightarrow> calculate_cement_height self = Inl e)
   \<and> (calculateData self = Inr obj \<longrightarrow>
        collapse_load obj = Some (calculate_collapse_load self) \<and>
        collapse_df obj =
          Some (if calculate_collapse_load self \<noteq> 0
                then Finite (collapse_strength self / calculate_collapse_load self)
                else PosInf) \<and>
        tension_buoyed obj = Some (calculate_tension_buoyed self) \<and>
        tension_df obj =
          Some (if calculate_tension_buoyed self \<noteq> 0
                then Finite (tension_strength self / calculate_tension_buoyed self)
                else PosInf))
   \<and> (\<exists>s'. calculateSoloMapsBurstLoadDF s = Inr s' \<and> burst_df_guarded s')
   \<and> (secs \<noteq> [] \<longrightarrow>
        (\<exists>r. calcParametersContained_burst secs = Inr r \<and> length r = length secs \<and>
             (\<forall>s \<in> set r. burst_df_guarded s)))"
proof -
  have "calculate_collapse_df (self\<lparr>collapse_load := Some l\<rparr>) =
     Inr (if l \<noteq> 0 then Finite (collapse_strength self / l) else PosInf)"
    using calculate_collapse_df_Some [of "self\<lparr>collapse_load := Some l\<rparr>" l] by simp
  moreover have "calculate_tension_df (self\<lparr>tension_buoyed := Some l\<rparr>) =
     Inr (if l \<noteq> 0 then Finite (tension_strength self / l) else PosInf)"
    using calculate_tension_df_Some [of "self\<lparr>tension_buoyed := Some l\<rparr>" l] by simp
  moreover note calculateData_error [of self e]
  moreover have "calculateData self = Inr obj \<longrightarrow>
        collapse_load obj = Some (calculate_collapse_load self) \<and>
        collapse_df obj =
          Some (if calculate_collapse_load self \<noteq> 0
                then Finite (collapse_strength self / calculate_collapse_load self)
                else PosInf) \<and>
        tension_buoyed obj = Some (calculate_tension_buoyed self) \<and>
        tension_df obj =
          Some (if calculate_tension_buoyed self \<noteq> 0
                then Finite (tension_strength self / calculate_tension_buoyed self)
                else PosInf)"
    using calculateData_design_factors(1-4) [of self obj] by blast
  moreover note solo_guarded [of s]
  moreover have "secs \<noteq> [] \<longrightarrow>
        (\<exists>r. calcParametersContained_burst secs = Inr r \<and> length r = length secs \<and>
             (\<forall>s \<in> set r. burst_df_guarded s))"
    using calcParametersContained_burst_guarded [of secs] by blast
  ultimately show ?thesis by blast
qed

theorem design_factor_values_witness:
  "(\<exists>obj. calculateData (CasingDataCalc_attributes example_production example_univ_params)
            = Inr obj
          \<and> collapse_load obj = Some 15990
          \<and> collapse_df obj = Some (Finite (13470 / 15990)))
   \<and> example_sections \<noteq> []
   \<and> (\<exists>r. calcParametersContained_burst example_sections = Inr r \<and>
            length r = length example_sections \<and> (\<forall>s \<in> set r. burst_df_guarded s))"
proof -
  obtain obj where obj:
    "calculateData (CasingDataCalc_attributes example_production example_univ_params) = Inr obj"
    using calculateData_Inr [OF example_production_cement_height] by blast
  have load: "calculate_collapse_load
                (CasingDataCalc_attributes example_production example_univ_params) = 15990"
    by (simp add: calculate_collapse_load_def CasingDataCalc_attributes_def
        example_production_def)
  have strength: "collapse_strength
                (CasingDataCalc_attributes example_production example_univ_params) = 13470"
    by (simp add: CasingDataCalc_attributes_def example_production_def)
  have nonempty: "example_sections \<noteq> []"
    by (simp add: example_sections_def)
  from design_factor_values
         [where self = "CasingDataCalc_attributes example_production example_univ_params"
            and obj = obj and secs = example_sections]
       obj load strength nonempty
  show ?thesis by simp
qed

text \<open>
  The claim as written fails for the tension design factor: a production liner of 100 ft
  (top of liner at 20400) weighs less than the buoyancy term, the buoyed tension is negative
  and the design factor is the negative quotient, not infinity.
\<close>

theorem tension_df_negative_counterexample:
  "(case CasingDataCalc example_production (example_univ_params\<lparr>univ_params.tol := 20400\<rparr>) of
      Inl e \<Rightarrow> False
    | Inr obj \<Rightarrow>
        tension_buoyed obj
          = Some ((18 * 100 - 0.05194806 * 15 * 950 * (pi / 4 * (5\<^sup>2 - 4.276\<^sup>2))) / 1000)
        \<and> (18 * 100 - 0.05194806 * 15 * 950 * (pi / 4 * (5\<^sup>2 - 4.276\<^sup>2))) / 1000 < 0
        \<and> tension_df obj
          = Some (Finite (606
              / ((18 * 100 - 0.05194806 * 15 * 950 * (pi / 4 * (5\<^sup>2 - 4.276\<^sup>2))) / 1000))))"
proof -
  obtain obj where obj:
    "calculateData (CasingDataCalc_attributes example_production
        (example_univ_params\<lparr>univ_params.tol := 20400\<rparr>)) = Inr obj"
    using calculateData_Inr [OF example_production_cement_height] by blast
  have strength: "tension_strength (CasingDataCalc_attributes example_production
        (example_univ_params\<lparr>univ_params.tol := 20400\<rparr>)) = 606"
    by (simp add: CasingDataCalc_attributes_def example_production_def)
  from calculateData_design_factors(3,4) [OF obj] short_liner_negative strength
  show ?thesis
    unfolding CasingDataCalc_def obj short_liner_tension_buoyed by simp
qed

section \<open>Properties of the re-keying\<close>

lemma dict_set_new:
  "k \<notin> fst ` set d \<Longrightarrow> dict_set d k v = d @ [(k, v)]"
  by (induction d) auto

lemma create_variables_loop_rekeys:
  assumes "length variables = length xs"
    and "distinct variables"
    and "\<forall>k \<in> fst ` set done. \<exists>l. k = Lbl l \<and> l \<notin> set variables"
  shows "create_variables_loop i variables (zip (map Idx [i..<i + length xs]) xs @ done)
           = Inr (done @ zip (map Lbl variables) xs)"
  using assms
proof (induction variables arbitrary: i xs "done")
  case Nil
  then show ?case by simp
next
  case (Cons label variables)
  then obtain x xs' where xs: "xs = x # xs'"
    by (cases xs) auto
  let ?rest = "zip (map Idx [Suc i..<Suc i + length xs']) xs' @ done"
  have upt: "[i..<i + length xs] = i # [Suc i..<Suc i + length xs']"
    by (subst upt_rec) (simp add: xs)
  have new: "Lbl label \<notin> fst ` set ?rest"
  proof
    assume "Lbl label \<in> fst ` set ?rest"
    then consider "Lbl label \<in> fst ` set (zip (map Idx [Suc i..<Suc i + length xs']) xs')"
      | "Lbl label \<in> fst ` set done"
      by auto
    then show False
    proof cases
      case 1
      then have "Lbl label \<in> set (map Idx [Suc i..<Suc i + length xs'])"
        by (auto dest: set_zip_leftD)
      then show False by auto
    next
      case 2
      with Cons.prems(3) show False by auto
    qed
  qed
  have done': "\<forall>k \<in> fst ` set (done @ [(Lbl label, x)]). \<exists>l. k = Lbl l \<and> l \<notin> set variables"
    using Cons.prems(2,3) by auto
  have "create_variables_loop i (label # variables)
          (zip (map Idx [i..<i + length xs]) xs @ done)
        = create_variables_loop (Suc i) variables (dict_set ?rest (Lbl label) x)"
    by (subst upt) (simp add: xs del: upt_Suc)
  also have "\<dots> = create_variables_loop (Suc i) variables
                    (zip (map Idx [Suc i..<Suc i + length xs']) xs' @ (done @ [(Lbl label, x)]))"
    by (simp only: dict_set_new [OF new] append_assoc)
  also have "\<dots> = Inr ((done @ [(Lbl label, x)]) @ zip (map Lbl variables) xs')"
    using Cons.prems(1,2) by (intro Cons.IH done') (simp_all add: xs)
  finally show ?case by (simp add: xs)
qed

text \<open>
  Claim C9 (as amended). For sections keyed \<open>0..n-1\<close> and a list of \<open>n\<close> pairwise distinct
  casing-type labels, \<open>create_variables\<close> returns the dictionary whose keys are the labels in
  the order of the list and whose values are the sections, each unchanged, in their
  positional order.
\<close>

theorem create_variables_rekeys:
  "distinct variables \<Longrightarrow> length variables = length xs \<Longrightarrow>
   create_variables (zip (map Idx [0..<length xs]) xs) variables
     = Inr (zip (map Lbl variables) xs)"
  using create_variables_loop_rekeys [of variables xs "[]" 0]
  by (simp add: create_variables_def)

theorem create_variables_rekeys_witness:
  "distinct [''surface'', ''production''] \<and>
   length [''surface'', ''production''] = length example_sections \<and>
   create_variables (zip (map Idx [0..<length example_sections]) example_sections)
       [''surface'', ''production'']
     = Inr (zip (map Lbl [''surface'', ''production'']) example_sections)"
  using create_variables_rekeys [of "[''surface'', ''production'']" example_sections]
  by (simp add: example_sections_def)

text \<open>
  The claim as written fails when two sections carry the same label: the second store
  replaces the value of the first, whose section is lost.
\<close>

theorem create_variables_duplicate_counterexample:
  "create_variables [(Idx 0, example_sections ! 0), (Idx 1, example_sections ! 1)]
       [''intermediate'', ''intermediate'']
     = Inr [(Lbl ''intermediate'', example_sections ! 1)]"
  by (simp add: create_variables_def)

section \<open>Properties of the section assembler\<close>

text \<open>
  The order of the sort keys: floats by value, strings lexicographically; a float and a
  string are not comparable. The bottom-up sort key of a section is its \<^verbatim>\<open>md_bottom\<close> when
  present, else its \<^verbatim>\<open>bottom\<close>. A well is indexed when its sections are keyed \<open>0..n-1\<close> in
  their order.
\<close>

fun pyval_le :: "pyval \<Rightarrow> pyval \<Rightarrow> bool" where
  "pyval_le (Num x) (Num y) = (x \<le> y)"
| "pyval_le (Str s) (Str t) = (s \<le> t)"
| "pyval_le a b = False"

definition depth_key :: "pydict \<Rightarrow> pyval option" where
  "depth_key d = (case d ''md_bottom'' of Some m \<Rightarrow> Some m | None \<Rightarrow> d ''bottom'')"

definition indexed :: "wellbore \<Rightarrow> bool" where
  "indexed w \<longleftrightarrow>
     map fst (wellbore.sections w) = map Idx [0..<length (wellbore.sections w)]"

lemma collect_Inr: "collect rs = Inr xs \<Longrightarrow> rs = map Inr xs"
proof (induction rs arbitrary: xs)
  case Nil
  then show ?case by simp
next
  case (Cons r rs)
  show ?case
  proof (cases r)
    case (Inl e)
    with Cons.prems show ?thesis by simp
  next
    case (Inr x)
    with Cons.prems obtain ys where "collect rs = Inr ys" "xs = x # ys"
      by (auto split: sum.splits)
    with Cons.IH Inr show ?thesis by simp
  qed
qed

lemma those_Some: "those os = Some xs \<Longrightarrow> os = map Some xs"
proof (induction os arbitrary: xs)
  case Nil
  then show ?case by simp
next
  case (Cons a os)
  then show ?case by (cases a) (auto split: option.splits)
qed

lemma map_num_of_Some: "map num_of keys = map Some ks \<Longrightarrow> keys = map Num ks"
proof (induction keys arbitrary: ks)
  case Nil
  then show ?case by simp
next
  case (Cons k keys)
  then obtain x xs where "ks = x # xs" by (cases ks) auto
  with Cons show ?case by (cases k) auto
qed

lemma map_str_of_Some: "map str_of keys = map Some ks \<Longrightarrow> keys = map Str ks"
proof (induction keys arbitrary: ks)
  case Nil
  then show ?case by simp
next
  case (Cons k keys)
  then obtain x xs where "ks = x # xs" by (cases ks) auto
  with Cons show ?case by (cases k) auto
qed

lemma mset_map_snd_zip:
  "length ks = length items \<Longrightarrow> mset (map snd (zip ks items)) = mset items"
  by simp

lemma stable_sort_mset:
  assumes "length ks = length items"
  shows "mset (stable_sort reverse (zip ks items)) = mset items"
proof -
  have "mset (map snd (sort_key fst (zip ks items))) = mset (map snd (zip ks items))"
    by (metis mset_map mset_sort)
  moreover have "mset (map snd (sort_key fst (rev (zip ks items)))) = mset (map snd (zip ks items))"
    by (metis mset_map mset_sort mset_rev)
  ultimately show ?thesis
    using assms by (simp add: stable_sort_def)
qed


lemma zip_key_fn:
  assumes "length ks = length items" and "map key_fn items = map (\<lambda>k. Inr (f k)) ks"
    and "p \<in> set (zip ks items)"
  shows "key_fn (snd p) = Inr (f (fst p))"
proof -
  from assms(3) obtain i where i: "i < length ks" "i < length items" "p = (ks ! i, items ! i)"
    by (auto simp add: set_zip)
  from assms(2) i have "map key_fn items ! i = map (\<lambda>k. Inr (f k)) ks ! i"
    by simp
  with i show ?thesis by simp
qed

lemma stable_sort_keys:
  assumes "length ks = length items" and "map key_fn items = map (\<lambda>k. Inr (f k)) ks"
  shows "\<exists>ks'. map key_fn (stable_sort reverse (zip ks items)) = map (\<lambda>k. Inr (f k)) ks'
           \<and> (if reverse then sorted (rev ks') else sorted ks')"
proof (cases reverse)
  case False
  let ?zs = "sort_key fst (zip ks items)"
  have "map key_fn (map snd ?zs) = map (\<lambda>k. Inr (f k)) (map fst ?zs)"
    using zip_key_fn [OF assms] by simp
  moreover have "sorted (map fst ?zs)"
    by (rule sorted_sort_key)
  ultimately show ?thesis
    using False unfolding stable_sort_def by (intro exI [of _ "map fst ?zs"]) simp
next
  case True
  let ?zs = "sort_key fst (rev (zip ks items))"
  have "map key_fn (map snd ?zs) = map (\<lambda>k. Inr (f k)) (map fst ?zs)"
    using zip_key_fn [OF assms] by simp
  then have "map key_fn (rev (map snd ?zs)) = map (\<lambda>k. Inr (f k)) (rev (map fst ?zs))"
    by (simp add: rev_map)
  moreover have "sorted (rev (rev (map fst ?zs)))"
    using sorted_sort_key [of fst "rev (zip ks items)"] by simp
  ultimately show ?thesis
    using True unfolding stable_sort_def by (intro exI [of _ "rev (map fst ?zs)"]) simp
qed

lemma sorted_pyval_le:
  fixes ks :: "real list" and ss :: "string list"
  shows "sorted ks \<Longrightarrow> sorted_wrt pyval_le (map Num ks)"
    and "sorted ss \<Longrightarrow> sorted_wrt pyval_le (map Str ss)"
    and "sorted (rev ks) \<Longrightarrow> sorted_wrt (\<lambda>a b. pyval_le b a) (map Num ks)"
    and "sorted (rev ss) \<Longrightarrow> sorted_wrt (\<lambda>a b. pyval_le b a) (map Str ss)"
  by (simp_all add: sorted_wrt_map sorted_wrt_rev)

lemma py_sorted_Inr:
  assumes "py_sorted reverse key_fn items = Inr result"
  shows "mset result = mset items"
    and "\<exists>vs. map key_fn result = map Inr vs
           \<and> (if reverse then sorted_wrt (\<lambda>a b. pyval_le b a) vs else sorted_wrt pyval_le vs)"
proof -
  from assms obtain keys where keys: "collect (map key_fn items) = Inr keys"
    by (auto simp add: py_sorted_def split: sum.splits)
  then have items: "map key_fn items = map Inr keys"
    by (rule collect_Inr)
  then have len: "length keys = length items"
    by (metis length_map)
  show "mset result = mset items"
    and "\<exists>vs. map key_fn result = map Inr vs
           \<and> (if reverse then sorted_wrt (\<lambda>a b. pyval_le b a) vs else sorted_wrt pyval_le vs)"
  proof (atomize (full), cases "those (map num_of keys)")
    case (Some ks)
    then have k: "keys = map Num ks"
      by (intro map_num_of_Some those_Some)
    with len have l: "length ks = length items" by simp
    from assms keys Some have r: "result = stable_sort reverse (zip ks items)"
      by (simp add: py_sorted_def)
    from items k have "map key_fn items = map (\<lambda>k. Inr (Num k)) ks" by simp
    from stable_sort_keys [OF l this, of reverse]
    obtain ks' where ks': "map key_fn result = map (\<lambda>k. Inr (Num k)) ks'"
      "if reverse then sorted (rev ks') else sorted ks'"
      unfolding r by blast
    have "map key_fn result = map Inr (map Num ks')"
      using ks'(1) by simp
    moreover have "if reverse then sorted_wrt (\<lambda>a b. pyval_le b a) (map Num ks')
                   else sorted_wrt pyval_le (map Num ks')"
      using ks'(2) by (auto simp add: sorted_pyval_le split: if_splits)
    ultimately show "mset result = mset items \<and>
      (\<exists>vs. map key_fn result = map Inr vs
           \<and> (if reverse then sorted_wrt (\<lambda>a b. pyval_le b a) vs else sorted_wrt pyval_le vs))"
      unfolding r using stable_sort_mset [OF l] by blast
  next
    case None
    with assms keys obtain ks where Some: "those (map str_of keys) = Some ks"
      by (auto simp add: py_sorted_def split: option.splits)
    then have k: "keys = map Str ks"
      by (intro map_str_of_Some those_Some)
    with len have l: "length ks = length items" by simp
    from assms keys None Some have r: "result = stable_sort reverse (zip ks items)"
      by (simp add: py_sorted_def)
    from items k have "map key_fn items = map (\<lambda>k. Inr (Str k)) ks" by simp
    from stable_sort_keys [OF l this, of reverse]
    obtain ks' where ks': "map key_fn result = map (\<lambda>k. Inr (Str k)) ks'"
      "if reverse then sorted (rev ks') else sorted ks'"
      unfolding r by blast
    have "map key_fn result = map Inr (map Str ks')"
      using ks'(1) by simp
    moreover have "if reverse then sorted_wrt (\<lambda>a b. pyval_le b a) (map Str ks')
                   else sorted_wrt pyval_le (map Str ks')"
      using ks'(2) by (auto simp add: sorted_pyval_le split: if_splits)
    ultimately show "mset result = mset items \<and>
      (\<exists>vs. map key_fn result = map Inr vs
           \<and> (if reverse then sorted_wrt (\<lambda>a b. pyval_le b a) vs else sorted_wrt pyval_le vs))"
      unfolding r using stable_sort_mset [OF l] by blast
  qed
qed


lemma dict_get_nth:
  "distinct (map fst d) \<Longrightarrow> i < length d \<Longrightarrow> dict_get d (fst (d ! i)) = Some (snd (d ! i))"
proof (induction d arbitrary: i)
  case Nil
  then show ?case by simp
next
  case (Cons p d)
  obtain k v where p: "p = (k, v)" by (cases p)
  show ?case
  proof (cases i)
    case 0
    then show ?thesis by (simp add: p)
  next
    case (Suc j)
    with Cons.prems have "j < length d" "fst (d ! j) \<noteq> k"
      by (auto simp add: p)
    with Cons.IH [of j] Cons.prems(1) Suc show ?thesis
      by (simp add: p)
  qed
qed

lemma dict_get_indexed:
  assumes "map fst d = map Idx [0..<length d]" and "i < length d"
  shows "dict_get d (Idx i) = Some (snd (d ! i))"
proof -
  have "distinct (map fst d)"
    unfolding assms(1) by (simp add: distinct_map inj_on_def)
  moreover have "fst (d ! i) = Idx i"
    using assms by (metis nth_map length_map nth_upt add_0)
  ultimately show ?thesis
    using dict_get_nth [of d i] assms(2) by simp
qed

lemma dict_set_indexed:
  assumes "map fst d = map Idx [0..<length d]"
  shows "dict_set d (Idx (length d)) v = d @ [(Idx (length d), v)]"
proof -
  have "Idx (length d) \<notin> set (map fst d)"
    unfolding assms by auto
  then show ?thesis
    by (intro dict_set_new) simp
qed

lemma reindex_simps [simp]:
  "length (reindex d) = length d"
  "map fst (reindex d) = map Idx [0..<length d]"
  "map snd (reindex d) = map snd d"
  by (simp_all add: reindex_def)

lemma reindex_last:
  "d \<noteq> [] \<Longrightarrow> dict_get (reindex d) (Idx (length d - Suc 0)) = Some (snd (last d))"
  using dict_get_indexed [of "reindex d" "length d - 1"]
  by (simp add: last_conv_nth reindex_def)

lemma reindex_hd:
  "d \<noteq> [] \<Longrightarrow> dict_get (reindex d) (Idx 0) = Some (snd (hd d))"
  using dict_get_indexed [of "reindex d" 0]
  by (simp add: hd_conv_nth reindex_def)

lemma getitem_Inr: "getitem d k = Inr v \<longleftrightarrow> d k = Some v"
  by (simp add: getitem_def split: option.splits)

lemma dict_get_last:
  assumes "map fst d = map Idx [0..<length d]" and "d \<noteq> []"
  shows "dict_get d (Idx (length d - Suc 0)) = Some (snd (last d))"
  using dict_get_indexed [OF assms(1), of "length d - 1"] assms(2)
  by (simp add: last_conv_nth)

lemma dict_get_hd:
  assumes "map fst d = map Idx [0..<length d]" and "d \<noteq> []"
  shows "dict_get d (Idx 0) = Some (snd (hd d))"
  using dict_get_indexed [OF assms(1), of 0] assms(2)
  by (simp add: hd_conv_nth)

lemma py_sorted_nonempty:
  assumes "py_sorted reverse key_fn items = Inr result" and "items \<noteq> []"
  shows "result \<noteq> []"
  using py_sorted_Inr(1) [OF assms(1)] assms(2) by auto

lemma add_section_top_down_new_Inr:
  assumes inv: "map fst (wellbore.sections self) = map Idx [0..<length (wellbore.sections self)]"
    and ok: "add_section_top_down_new self kwargs = Inr self'"
  obtains new_top sections2 b where
    "wellbore.sections self = [] \<and> new_top = Num (wellbore.top self)
     \<or> wellbore.sections self \<noteq> []
       \<and> snd (last (wellbore.sections self)) ''bottom'' = Some new_top"
    "py_sorted False (\<lambda>item. getitem (snd item) ''top'')
       (wellbore.sections self
          @ [(Idx (length (wellbore.sections self)), [''top'' \<mapsto> new_top] ++ kwargs)])
     = Inr sections2"
    "sections2 \<noteq> []"
    "snd (last sections2) ''bottom'' = Some b"
    "self' = self\<lparr>wellbore.complete := (b = Num (wellbore.bottom self) \<or> wellbore.complete self),
                  wellbore.sections := reindex sections2\<rparr>"
proof -
  let ?key = "\<lambda>item :: key \<times> pydict. getitem (snd item) ''top''"
  let ?n = "length (wellbore.sections self)"
  have "\<exists>new_top.
          (wellbore.sections self = [] \<and> new_top = Num (wellbore.top self)
           \<or> wellbore.sections self \<noteq> []
             \<and> snd (last (wellbore.sections self)) ''bottom'' = Some new_top)
          \<and> add_section_top_down_new self kwargs =
              (case py_sorted False ?key
                      (wellbore.sections self @ [(Idx ?n, [''top'' \<mapsto> new_top] ++ kwargs)]) of
                 Inl e \<Rightarrow> Inl e
               | Inr sections2 \<Rightarrow>
                   (case dict_get (reindex sections2) (Idx (length (reindex sections2) - 1)) of
                      None \<Rightarrow> Inl KeyError
                    | Some deepest \<Rightarrow>
                        (case getitem deepest ''bottom'' of
                           Inl e \<Rightarrow> Inl e
                         | Inr b \<Rightarrow>
                             Inr (self\<lparr>wellbore.complete :=
                                         (b = Num (wellbore.bottom self)
                                          \<or> wellbore.complete self),
                                       wellbore.sections := reindex sections2\<rparr>))))"
  proof (cases "wellbore.sections self = []")
    case True
    then show ?thesis
      by (simp add: add_section_top_down_new_def Let_def split: sum.splits)
  next
    case False
    with ok obtain new_top where
      "getitem (snd (last (wellbore.sections self))) ''bottom'' = Inr new_top"
      by (auto simp add: add_section_top_down_new_def Let_def dict_get_last [OF inv]
          split: sum.splits)
    then have "snd (last (wellbore.sections self)) ''bottom'' = Some new_top"
      by (simp add: getitem_Inr)
    with False show ?thesis
      by (simp add: add_section_top_down_new_def Let_def dict_get_last [OF inv]
          dict_set_indexed [OF inv] getitem_def split: sum.splits)
  qed
  then obtain new_top where
    pos: "wellbore.sections self = [] \<and> new_top = Num (wellbore.top self)
           \<or> wellbore.sections self \<noteq> []
             \<and> snd (last (wellbore.sections self)) ''bottom'' = Some new_top"
    and eq: "add_section_top_down_new self kwargs =
              (case py_sorted False ?key
                      (wellbore.sections self @ [(Idx ?n, [''top'' \<mapsto> new_top] ++ kwargs)]) of
                 Inl e \<Rightarrow> Inl e
               | Inr sections2 \<Rightarrow>
                   (case dict_get (reindex sections2) (Idx (length (reindex sections2) - 1)) of
                      None \<Rightarrow> Inl KeyError
                    | Some deepest \<Rightarrow>
                        (case getitem deepest ''bottom'' of
                           Inl e \<Rightarrow> Inl e
                         | Inr b \<Rightarrow>
                             Inr (self\<lparr>wellbore.complete :=
                                         (b = Num (wellbore.bottom self)
                                          \<or> wellbore.complete self),
                                       wellbore.sections := reindex sections2\<rparr>))))"
    by blast
  from ok eq obtain sections2 where
    s2: "py_sorted False ?key
           (wellbore.sections self @ [(Idx ?n, [''top'' \<mapsto> new_top] ++ kwargs)]) = Inr sections2"
    by (auto split: sum.splits)
  then have ne: "sections2 \<noteq> []"
    by (rule py_sorted_nonempty) simp
  from ok eq s2 ne obtain b where
    "getitem (snd (last sections2)) ''bottom'' = Inr b"
    "self' = self\<lparr>wellbore.complete := (b = Num (wellbore.bottom self) \<or> wellbore.complete self),
                  wellbore.sections := reindex sections2\<rparr>"
    by (auto simp add: reindex_last split: sum.splits)
  with pos s2 ne that show thesis
    by (simp add: getitem_Inr)
qed


lemma snd_last_reindex: "d \<noteq> [] \<Longrightarrow> snd (last (reindex d)) = snd (last d)"
proof -
  assume "d \<noteq> []"
  then have "snd (last (reindex d)) = last (map snd (reindex d))"
    by (subst last_map) (simp_all add: reindex_def)
  also have "\<dots> = snd (last d)"
    using \<open>d \<noteq> []\<close> by (simp add: last_map)
  finally show ?thesis .
qed

lemma snd_hd_reindex: "d \<noteq> [] \<Longrightarrow> snd (hd (reindex d)) = snd (hd d)"
proof -
  assume "d \<noteq> []"
  then have "snd (hd (reindex d)) = hd (map snd (reindex d))"
    by (subst hd_map) (simp_all add: reindex_def)
  also have "\<dots> = snd (hd d)"
    using \<open>d \<noteq> []\<close> by (simp add: hd_map)
  finally show ?thesis .
qed

lemma map_getitem_Inr:
  "map (\<lambda>item. getitem (snd item) k) xs = map Inr vs
   \<Longrightarrow> map (\<lambda>d. d k) (map snd xs) = map Some vs"
proof (induction xs arbitrary: vs)
  case Nil
  then show ?case by simp
next
  case (Cons x xs)
  then obtain v vs' where "vs = v # vs'" by (cases vs) auto
  with Cons show ?case by (auto simp add: getitem_Inr)
qed

lemma mset_values_sorted:
  assumes "py_sorted reverse key_fn (d @ [(k, new)]) = Inr sections2"
  shows "mset (map snd (reindex sections2)) = mset (map snd d) + {#new#}"
proof -
  have "mset (map snd (reindex sections2)) = image_mset snd (mset sections2)"
    by simp
  also have "\<dots> = image_mset snd (mset (d @ [(k, new)]))"
    using py_sorted_Inr(1) [OF assms] by simp
  finally show ?thesis by simp
qed

lemma py_sub_Inr: "py_sub a b = Inr x \<longleftrightarrow> (\<exists>p q. a = Num p \<and> b = Num q \<and> x = p - q)"
  by (cases a; cases b) (auto simp add: py_sub_def)

lemma get_or_item_Inr:
  "get_or_item d k k' = Inr v \<longleftrightarrow>
     (\<exists>fallback. d k' = Some fallback \<and> v = (case d k of None \<Rightarrow> fallback | Some m \<Rightarrow> m))"
  by (auto simp add: get_or_item_def getitem_def split: option.splits)

lemma add_section_bottom_up_new_Inr:
  assumes inv: "map fst (wellbore.sections self) = map Idx [0..<length (wellbore.sections self)]"
    and ok: "add_section_bottom_up_new self kwargs = Inr self'"
  obtains new_bottom new_top sections2 t where
    "wellbore.sections self = [] \<and> new_bottom = Num (wellbore.bottom self)
     \<or> wellbore.sections self \<noteq> []
       \<and> (\<exists>fallback. snd (hd (wellbore.sections self)) ''top'' = Some fallback
             \<and> new_bottom = (case snd (hd (wellbore.sections self)) ''md_top'' of
                                None \<Rightarrow> fallback | Some m \<Rightarrow> m))"
    "case kwargs ''length'' of
       Some l \<Rightarrow> \<exists>b x. new_bottom = Num b \<and> l = Num x
                         \<and> new_top = Num (max (b - x) (wellbore.top self))
     | None \<Rightarrow> (case kwargs ''top'' of
                   Some t \<Rightarrow> new_top = t
                 | None \<Rightarrow> new_top = Num (wellbore.top self))"
    "py_sorted True (\<lambda>item. get_or_item (snd item) ''md_bottom'' ''bottom'')
       (wellbore.sections self
          @ [(Idx (length (wellbore.sections self)),
              [''top'' \<mapsto> new_top, ''bottom'' \<mapsto> new_bottom] ++ kwargs)])
     = Inr sections2"
    "sections2 \<noteq> []"
    "snd (hd sections2) ''top'' = Some t"
    "self' = self\<lparr>wellbore.complete := (t = Num (wellbore.top self) \<or> wellbore.complete self),
                  wellbore.sections := reindex sections2\<rparr>"
proof -
  let ?key = "\<lambda>item :: key \<times> pydict. get_or_item (snd item) ''md_bottom'' ''bottom''"
  let ?n = "length (wellbore.sections self)"
  let ?top = "\<lambda>new_bottom.
     (case kwargs ''length'' of
        Some l \<Rightarrow>
          (case py_sub new_bottom l of
             Inl e \<Rightarrow> Inl e
           | Inr t \<Rightarrow> Inr (Num (max t (wellbore.top self))))
      | None \<Rightarrow>
          (case kwargs ''top'' of
             Some t \<Rightarrow> Inr t
           | None \<Rightarrow> Inr (Num (wellbore.top self))))"
  let ?rest = "\<lambda>new_bottom new_top.
     (case py_sorted True ?key
             (wellbore.sections self
                @ [(Idx ?n, [''top'' \<mapsto> new_top, ''bottom'' \<mapsto> new_bottom] ++ kwargs)]) of
        Inl e \<Rightarrow> Inl e
      | Inr sections2 \<Rightarrow>
          (case dict_get (reindex sections2) (Idx 0) of
             None \<Rightarrow> Inl KeyError
           | Some first_section \<Rightarrow>
               (case getitem first_section ''top'' of
                  Inl e \<Rightarrow> Inl e
                | Inr t \<Rightarrow>
                    Inr (self\<lparr>wellbore.complete :=
                                (t = Num (wellbore.top self) \<or> wellbore.complete self),
                              wellbore.sections := reindex sections2\<rparr>))))"
  have "\<exists>new_bottom.
          (wellbore.sections self = [] \<and> new_bottom = Num (wellbore.bottom self)
           \<or> wellbore.sections self \<noteq> []
             \<and> (\<exists>fallback. snd (hd (wellbore.sections self)) ''top'' = Some fallback
                   \<and> new_bottom = (case snd (hd (wellbore.sections self)) ''md_top'' of
                                      None \<Rightarrow> fallback | Some m \<Rightarrow> m)))
          \<and> add_section_bottom_up_new self kwargs =
              (case ?top new_bottom of
                 Inl e \<Rightarrow> Inl e
               | Inr new_top \<Rightarrow> ?rest new_bottom new_top)"
  proof (cases "wellbore.sections self = []")
    case True
    then show ?thesis
      by (simp add: add_section_bottom_up_new_def Let_def split: sum.splits)
  next
    case False
    with ok obtain new_bottom where
      nb: "get_or_item (snd (hd (wellbore.sections self))) ''md_top'' ''top'' = Inr new_bottom"
      by (auto simp add: add_section_bottom_up_new_def Let_def dict_get_hd [OF inv]
          split: sum.splits)
    then have "\<exists>fallback. snd (hd (wellbore.sections self)) ''top'' = Some fallback
                   \<and> new_bottom = (case snd (hd (wellbore.sections self)) ''md_top'' of
                                      None \<Rightarrow> fallback | Some m \<Rightarrow> m)"
      by (simp add: get_or_item_Inr)
    with False nb show ?thesis
      by (intro exI [of _ new_bottom])
        (simp add: add_section_bottom_up_new_def Let_def dict_get_hd [OF inv]
          dict_set_indexed [OF inv] split: sum.splits)
  qed
  then obtain new_bottom where
    pos: "wellbore.sections self = [] \<and> new_bottom = Num (wellbore.bottom self)
           \<or> wellbore.sections self \<noteq> []
             \<and> (\<exists>fallback. snd (hd (wellbore.sections self)) ''top'' = Some fallback
                   \<and> new_bottom = (case snd (hd (wellbore.sections self)) ''md_top'' of
                                      None \<Rightarrow> fallback | Some m \<Rightarrow> m))"
    and eq: "add_section_bottom_up_new self kwargs =
              (case ?top new_bottom of
                 Inl e \<Rightarrow> Inl e
               | Inr new_top \<Rightarrow> ?rest new_bottom new_top)"
    by blast
  from ok eq obtain new_top where
    nt: "?top new_bottom = Inr new_top" and eq2: "?rest new_bottom new_top = Inr self'"
    by (auto split: sum.splits)
  from nt have top: "case kwargs ''length'' of
       Some l \<Rightarrow> \<exists>b x. new_bottom = Num b \<and> l = Num x
                         \<and> new_top = Num (max (b - x) (wellbore.top self))
     | None \<Rightarrow> (case kwargs ''top'' of
                   Some t \<Rightarrow> new_top = t
                 | None \<Rightarrow> new_top = Num (wellbore.top self))"
    by (auto simp add: py_sub_Inr split: option.splits sum.splits)
  from eq2 obtain sections2 where
    s2: "py_sorted True ?key
           (wellbore.sections self
              @ [(Idx ?n, [''top'' \<mapsto> new_top, ''bottom'' \<mapsto> new_bottom] ++ kwargs)])
         = Inr sections2"
    by (auto split: sum.splits)
  then have ne: "sections2 \<noteq> []"
    by (rule py_sorted_nonempty) simp
  from eq2 s2 ne obtain t where
    "getitem (snd (hd sections2)) ''top'' = Inr t"
    "self' = self\<lparr>wellbore.complete := (t = Num (wellbore.top self) \<or> wellbore.complete self),
                  wellbore.sections := reindex sections2\<rparr>"
    by (auto simp add: reindex_hd split: sum.splits)
  with pos top s2 ne that show thesis
    by (simp add: getitem_Inr)
qed


lemma map_get_or_item_Inr:
  "map (\<lambda>item. get_or_item (snd item) ''md_bottom'' ''bottom'') xs = map Inr vs
   \<Longrightarrow> map depth_key (map snd xs) = map Some vs"
proof (induction xs arbitrary: vs)
  case Nil
  then show ?case by simp
next
  case (Cons x xs)
  then obtain v vs' where "vs = v # vs'" by (cases vs) auto
  with Cons show ?case
    by (auto simp add: get_or_item_Inr depth_key_def split: option.splits)
qed

text \<open>
  Example wells and raw fields: the well and the surface and production rows of the tables
  in the docstring of \<^verbatim>\<open>main\<close>; the well and the bottom-up call of the class
  docstrings, with the call that continues it upwards; a well of 1500 ft with the call for
  its lowest 500 ft; and the two docstring calls as full rows, with every required field.
\<close>

definition example_well :: "string \<Rightarrow> wellbore" where
  "example_well m =
     \<lparr>wellbore.name = ''Wellbore (Planned)'', top = 100, bottom = 20500, method' = m,
      sections = [], complete = False, max_md_depth = 20500, max_tvd_depth = 9300,
      tol = 9300, frac_gradient = 1, relationships = []\<rparr>"

definition example_kwargs_surface :: pydict where
  "example_kwargs_surface =
     [''id'' \<mapsto> Num 0, ''casing_type'' \<mapsto> Str ''surface'', ''od'' \<mapsto> Num 9.625,
      ''bottom'' \<mapsto> Num 2500, ''weight'' \<mapsto> Num 36, ''grade'' \<mapsto> Str ''J-55'',
      ''connection'' \<mapsto> Str ''LTC'', ''hole_size'' \<mapsto> Num 12.25,
      ''cement_cu_ft'' \<mapsto> Num (286 * 2.6 + 166 * 1.13), ''tvd'' \<mapsto> Num 2500,
      ''washout'' \<mapsto> Num 10, ''int_gradient'' \<mapsto> Num 0.12, ''mud_weight'' \<mapsto> Num 11,
      ''backup_mud'' \<mapsto> Num 0, ''body_yield'' \<mapsto> Num 564, ''burst_strength'' \<mapsto> Num 3520,
      ''wall_thickness'' \<mapsto> Num 0.352, ''csg_internal_diameter'' \<mapsto> Num 8.921,
      ''collapse_pressure'' \<mapsto> Num 2020, ''tension_strength'' \<mapsto> Num 453]"

definition example_kwargs_production :: pydict where
  "example_kwargs_production =
     [''id'' \<mapsto> Num 2, ''casing_type'' \<mapsto> Str ''production'', ''od'' \<mapsto> Num 5,
      ''bottom'' \<mapsto> Num 20500, ''weight'' \<mapsto> Num 18, ''grade'' \<mapsto> Str ''P-110'',
      ''connection'' \<mapsto> Str ''BTC'', ''hole_size'' \<mapsto> Num 6.125,
      ''cement_cu_ft'' \<mapsto> Num (613 * 1.38 + 0 * 0), ''tvd'' \<mapsto> Num 10250,
      ''washout'' \<mapsto> Num 4, ''int_gradient'' \<mapsto> Num 0.22, ''mud_weight'' \<mapsto> Num 15,
      ''backup_mud'' \<mapsto> Num 0, ''body_yield'' \<mapsto> Num 580, ''burst_strength'' \<mapsto> Num 13620,
      ''wall_thickness'' \<mapsto> Num 0.362, ''csg_internal_diameter'' \<mapsto> Num 4.276,
      ''collapse_pressure'' \<mapsto> Num 13470, ''tension_strength'' \<mapsto> Num 606]"

definition example_top_down_staged :: wellbore where
  "example_top_down_staged =
     (example_well ''top_down'')
       \<lparr>wellbore.sections := [(Idx 0, [''top'' \<mapsto> Num 100] ++ example_kwargs_surface)]\<rparr>"

definition docstring_well :: wellbore where
  "docstring_well =
     \<lparr>wellbore.name = ''WELL-A'', top = 0, bottom = 1000, method' = ''bottom_up'',
      sections = [], complete = False, max_md_depth = 1200, max_tvd_depth = 1150,
      tol = 950, frac_gradient = 1, relationships = []\<rparr>"

definition docstring_kwargs :: pydict where
  "docstring_kwargs = [''length'' \<mapsto> Num 500, ''md_top'' \<mapsto> Num 500, ''md_bottom'' \<mapsto> Num 1000]"

definition docstring_kwargs_upper :: pydict where
  "docstring_kwargs_upper =
     [''length'' \<mapsto> Num 500, ''md_top'' \<mapsto> Num 0, ''md_bottom'' \<mapsto> Num 500]"

definition deep_well :: wellbore where
  "deep_well =
     \<lparr>wellbore.name = ''WELL-B'', top = 0, bottom = 1500, method' = ''bottom_up'',
      sections = [], complete = False, max_md_depth = 1700, max_tvd_depth = 1650,
      tol = 950, frac_gradient = 1, relationships = []\<rparr>"

definition deep_kwargs_lower :: pydict where
  "deep_kwargs_lower =
     [''length'' \<mapsto> Num 500, ''md_top'' \<mapsto> Num 1000, ''md_bottom'' \<mapsto> Num 1500]"

definition docstring_row_lower :: pydict where
  "docstring_row_lower =
     example_kwargs_production
       (''bottom'' \<mapsto> Num 1000, ''tvd'' \<mapsto> Num 1000, ''length'' \<mapsto> Num 500,
        ''md_top'' \<mapsto> Num 500, ''md_bottom'' \<mapsto> Num 1000)"

definition docstring_row_upper :: pydict where
  "docstring_row_upper =
     example_kwargs_surface
       (''bottom'' \<mapsto> Num 500, ''tvd'' \<mapsto> Num 500, ''length'' \<mapsto> Num 500,
        ''md_top'' \<mapsto> Num 0, ''md_bottom'' \<mapsto> Num 500)"

lemma example_well_new:
  "WellBoreExpanded ''Wellbore (Planned)'' 100 20500 20500 9300 9300 1 m = Inr (example_well m)"
  by (simp add: WellBoreExpanded_def validate_initial_parameters_def example_well_def)

lemma required_surface: "filter (\<lambda>param. example_kwargs_surface param = None) required_params = []"
  by (simp add: required_params_def example_kwargs_surface_def)

lemma required_production:
  "filter (\<lambda>param. example_kwargs_production param = None) required_params = []"
  by (simp add: required_params_def example_kwargs_production_def)

lemma py_sorted_single:
  "key_fn x = Inr v \<Longrightarrow> py_sorted reverse key_fn [x] = Inr [x]"
  by (cases v) (simp_all add: py_sorted_def stable_sort_def)

lemma map_add_apply: "(m ++ n) k = (case n k of None \<Rightarrow> m k | Some v \<Rightarrow> Some v)"
  by (simp add: map_add_def)

lemma py_sorted_pair:
  "key_fn x = Inr (Num a) \<Longrightarrow> key_fn y = Inr (Num b) \<Longrightarrow>
   py_sorted reverse key_fn [x, y] =
     Inr (if reverse then (if a < b then [y, x] else [x, y])
          else (if b < a then [y, x] else [x, y]))"
  by (auto simp add: py_sorted_def stable_sort_def)

lemma top_down_step_empty:
  assumes "wellbore.sections w = []" and "kwargs ''bottom'' = Some b"
  shows "add_section_top_down_new w kwargs =
     Inr (w\<lparr>wellbore.complete := (b = Num (wellbore.bottom w) \<or> wellbore.complete w),
            wellbore.sections := [(Idx 0, [''top'' \<mapsto> Num (wellbore.top w)] ++ kwargs)]\<rparr>)"
proof -
  obtain v where "getitem ([''top'' \<mapsto> Num (wellbore.top w)] ++ kwargs) ''top'' = Inr v"
    by (cases "kwargs ''top''") (simp_all add: getitem_def map_add_apply)
  then have "py_sorted False (\<lambda>item. getitem (snd item) ''top'')
               [(Idx 0, [''top'' \<mapsto> Num (wellbore.top w)] ++ kwargs)]
             = Inr [(Idx 0, [''top'' \<mapsto> Num (wellbore.top w)] ++ kwargs)]"
    by (intro py_sorted_single [of _ _ v]) simp
  with assms show ?thesis
    by (simp add: add_section_top_down_new_def getitem_def map_add_apply reindex_def Let_def)
qed

lemma top_down_step_one:
  assumes "wellbore.sections w = [(Idx 0, previous)]"
    and "previous ''top'' = Some (Num pt)" and "previous ''bottom'' = Some (Num pb)"
    and "pt \<le> pb" and "kwargs ''top'' = None" and "kwargs ''bottom'' = Some b"
  shows "add_section_top_down_new w kwargs =
     Inr (w\<lparr>wellbore.complete := (b = Num (wellbore.bottom w) \<or> wellbore.complete w),
            wellbore.sections :=
              [(Idx 0, previous), (Idx 1, [''top'' \<mapsto> Num pb] ++ kwargs)]\<rparr>)"
proof -
  have "py_sorted False (\<lambda>item. getitem (snd item) ''top'')
               [(Idx 0, previous), (Idx 1, [''top'' \<mapsto> Num pb] ++ kwargs)]
             = Inr [(Idx 0, previous), (Idx 1, [''top'' \<mapsto> Num pb] ++ kwargs)]"
    using assms
    by (subst py_sorted_pair [of _ _ pt _ pb]) (simp_all add: getitem_def map_add_apply)
  with assms show ?thesis
    by (simp add: add_section_top_down_new_def getitem_def map_add_apply reindex_def Let_def)
qed


lemma add_section_with_properties_top_down:
  "filter (\<lambda>param. kwargs param = None) required_params = [] \<Longrightarrow>
   wellbore.method' w = ''top_down'' \<Longrightarrow>
   add_section_with_properties w kwargs = add_section_top_down_new w kwargs"
  by (simp add: add_section_with_properties_def)

lemma required_surface_top:
  "filter (\<lambda>param. (example_kwargs_surface(''top'' \<mapsto> Num 50)) param = None) required_params
     = []"
  by (simp add: required_params_def example_kwargs_surface_def)

lemma example_top_down_staged:
  "add_section_with_properties (example_well ''top_down'') example_kwargs_surface
     = Inr example_top_down_staged"
proof -
  have m0: "wellbore.method' (example_well ''top_down'') = ''top_down''"
    by (simp add: example_well_def)
  show ?thesis
    unfolding add_section_with_properties_top_down [OF required_surface m0]
    by (subst top_down_step_empty [where b = "Num 2500"])
      (simp_all add: example_well_def example_kwargs_surface_def example_top_down_staged_def)
qed

lemma docstring_well_new:
  "WellBoreExpanded ''WELL-A'' 0 1000 1200 1150 950 1 ''bottom_up'' = Inr docstring_well"
  by (simp add: WellBoreExpanded_def validate_initial_parameters_def docstring_well_def)

lemma bottom_up_step_empty:
  assumes "wellbore.sections w = []"
    and "(case kwargs ''length'' of
            Some l \<Rightarrow>
              (case py_sub (Num (wellbore.bottom w)) l of
                 Inl e \<Rightarrow> Inl e
               | Inr t \<Rightarrow> Inr (Num (max t (wellbore.top w))))
          | None \<Rightarrow>
              (case kwargs ''top'' of
                 Some t \<Rightarrow> Inr t
               | None \<Rightarrow> Inr (Num (wellbore.top w)))) = Inr new_top"
    and "([''top'' \<mapsto> new_top, ''bottom'' \<mapsto> Num (wellbore.bottom w)] ++ kwargs) ''top''
           = Some t"
  shows "add_section_bottom_up_new w kwargs =
     Inr (w\<lparr>wellbore.complete := (t = Num (wellbore.top w) \<or> wellbore.complete w),
            wellbore.sections :=
              [(Idx 0, [''top'' \<mapsto> new_top, ''bottom'' \<mapsto> Num (wellbore.bottom w)]
                         ++ kwargs)]\<rparr>)"
proof -
  let ?new = "[''top'' \<mapsto> new_top, ''bottom'' \<mapsto> Num (wellbore.bottom w)] ++ kwargs"
  obtain v where "get_or_item ?new ''md_bottom'' ''bottom'' = Inr v"
    by (cases "kwargs ''bottom''"; cases "kwargs ''md_bottom''")
      (simp_all add: get_or_item_def getitem_def map_add_apply)
  then have "py_sorted True (\<lambda>item. get_or_item (snd item) ''md_bottom'' ''bottom'')
               [(Idx 0, ?new)] = Inr [(Idx 0, ?new)]"
    by (intro py_sorted_single [of _ _ v]) simp
  with assms show ?thesis
    by (simp add: add_section_bottom_up_new_def getitem_def reindex_def Let_def)
qed

lemma bottom_up_step_one:
  assumes "wellbore.sections w = [(Idx 0, first)]"
    and "get_or_item first ''md_top'' ''top'' = Inr new_bottom"
    and "(case kwargs ''length'' of
            Some l \<Rightarrow>
              (case py_sub new_bottom l of
                 Inl e \<Rightarrow> Inl e
               | Inr t \<Rightarrow> Inr (Num (max t (wellbore.top w))))
          | None \<Rightarrow>
              (case kwargs ''top'' of
                 Some t \<Rightarrow> Inr t
               | None \<Rightarrow> Inr (Num (wellbore.top w)))) = Inr new_top"
    and "get_or_item first ''md_bottom'' ''bottom'' = Inr (Num fk)"
    and "get_or_item ([''top'' \<mapsto> new_top, ''bottom'' \<mapsto> new_bottom] ++ kwargs)
           ''md_bottom'' ''bottom'' = Inr (Num nk)"
    and "nk \<le> fk"
    and "first ''top'' = Some t"
  shows "add_section_bottom_up_new w kwargs =
     Inr (w\<lparr>wellbore.complete := (t = Num (wellbore.top w) \<or> wellbore.complete w),
            wellbore.sections :=
              [(Idx 0, first),
               (Idx 1, [''top'' \<mapsto> new_top, ''bottom'' \<mapsto> new_bottom] ++ kwargs)]\<rparr>)"
proof -
  let ?new = "[''top'' \<mapsto> new_top, ''bottom'' \<mapsto> new_bottom] ++ kwargs"
  have "py_sorted True (\<lambda>item. get_or_item (snd item) ''md_bottom'' ''bottom'')
               [(Idx 0, first), (Idx 1, ?new)] = Inr [(Idx 0, first), (Idx 1, ?new)]"
    using assms(4,5,6) by (subst py_sorted_pair [of _ _ fk _ nk]) simp_all
  with assms(1,2,3,7) show ?thesis
    by (simp add: add_section_bottom_up_new_def getitem_def reindex_def Let_def)
qed


lemma add_section_with_properties_bottom_up:
  "filter (\<lambda>param. kwargs param = None) required_params = [] \<Longrightarrow>
   wellbore.method' w = ''bottom_up'' \<Longrightarrow>
   add_section_with_properties w kwargs = add_section_bottom_up_new w kwargs"
  by (simp add: add_section_with_properties_def)

lemma deep_well_new:
  "WellBoreExpanded ''WELL-B'' 0 1500 1700 1650 950 1 ''bottom_up'' = Inr deep_well"
  by (simp add: WellBoreExpanded_def validate_initial_parameters_def deep_well_def)

lemma py_sorted_triple_descending:
  "key_fn x = Inr (Num a) \<Longrightarrow> key_fn y = Inr (Num b) \<Longrightarrow> key_fn z = Inr (Num c) \<Longrightarrow>
   c \<le> b \<Longrightarrow> b \<le> a \<Longrightarrow> py_sorted True key_fn [x, y, z] = Inr [x, y, z]"
  by (auto simp add: py_sorted_def stable_sort_def)

lemma bottom_up_step_two:
  assumes "wellbore.sections w = [(Idx 0, first), (Idx 1, second)]"
    and "get_or_item first ''md_top'' ''top'' = Inr new_bottom"
    and "(case kwargs ''length'' of
            Some l \<Rightarrow>
              (case py_sub new_bottom l of
                 Inl e \<Rightarrow> Inl e
               | Inr t \<Rightarrow> Inr (Num (max t (wellbore.top w))))
          | None \<Rightarrow>
              (case kwargs ''top'' of
                 Some t \<Rightarrow> Inr t
               | None \<Rightarrow> Inr (Num (wellbore.top w)))) = Inr new_top"
    and "get_or_item first ''md_bottom'' ''bottom'' = Inr (Num fk)"
    and "get_or_item second ''md_bottom'' ''bottom'' = Inr (Num sk)"
    and "get_or_item ([''top'' \<mapsto> new_top, ''bottom'' \<mapsto> new_bottom] ++ kwargs)
           ''md_bottom'' ''bottom'' = Inr (Num nk)"
    and "nk \<le> sk" and "sk \<le> fk"
    and "first ''top'' = Some t"
  shows "add_section_bottom_up_new w kwargs =
     Inr (w\<lparr>wellbore.complete := (t = Num (wellbore.top w) \<or> wellbore.complete w),
            wellbore.sections :=
              [(Idx 0, first), (Idx 1, second),
               (Idx 2, [''top'' \<mapsto> new_top, ''bottom'' \<mapsto> new_bottom] ++ kwargs)]\<rparr>)"
proof -
  let ?new = "[''top'' \<mapsto> new_top, ''bottom'' \<mapsto> new_bottom] ++ kwargs"
  have "py_sorted True (\<lambda>item. get_or_item (snd item) ''md_bottom'' ''bottom'')
               [(Idx 0, first), (Idx 1, second), (Idx 2, ?new)]
          = Inr [(Idx 0, first), (Idx 1, second), (Idx 2, ?new)]"
    using assms(4,5,6,7,8) by (intro py_sorted_triple_descending [of _ _ fk _ sk _ nk]) simp_all
  with assms(1,2,3,9) show ?thesis
    by (simp add: add_section_bottom_up_new_def getitem_def reindex_def Let_def numeral_2_eq_2)
qed

lemma required_docstring_rows:
  "filter (\<lambda>param. docstring_row_lower param = None) required_params = []"
  "filter (\<lambda>param. docstring_row_upper param = None) required_params = []"
  by (simp_all add: required_params_def docstring_row_lower_def docstring_row_upper_def
      example_kwargs_production_def example_kwargs_surface_def)

lemma add_section_with_properties_indexed:
  assumes "indexed w" and "add_section_with_properties w kwargs = Inr w'"
  shows "indexed w'"
proof -
  have "add_section_top_down_new w kwargs = Inr w'
        \<or> add_section_bottom_up_new w kwargs = Inr w' \<or> w' = w"
  proof (cases "filter (\<lambda>param. kwargs param = None) required_params = []")
    case False
    with assms(2) show ?thesis
      unfolding add_section_with_properties_def Let_def by simp
  next
    case True
    show ?thesis
    proof (cases "wellbore.method' w = ''top_down''")
      case top_down: True
      with assms(2) True show ?thesis
        unfolding add_section_with_properties_def Let_def by simp
    next
      case not_top_down: False
      show ?thesis
      proof (cases "wellbore.method' w = ''bottom_up''")
        case True
        with assms(2) \<open>filter (\<lambda>param. kwargs param = None) required_params = []\<close>
          not_top_down
        show ?thesis
          unfolding add_section_with_properties_def Let_def by simp
      next
        case False
        with assms(2) \<open>filter (\<lambda>param. kwargs param = None) required_params = []\<close>
          not_top_down
        show ?thesis
          unfolding add_section_with_properties_def Let_def by simp
      qed
    qed
  qed
  then consider "add_section_top_down_new w kwargs = Inr w'"
    | "add_section_bottom_up_new w kwargs = Inr w'" | "w' = w"
    by blast
  then show ?thesis
  proof cases
    case 1
    from add_section_top_down_new_Inr [OF assms(1) [unfolded indexed_def] 1]
    obtain sections2 where "wellbore.sections w' = reindex sections2"
      by (metis (no_types, lifting) wellbore.select_convs(5) wellbore.surjective
          wellbore.update_convs(5,6))
    then show ?thesis by (simp add: indexed_def)
  next
    case 2
    from add_section_bottom_up_new_Inr [OF assms(1) [unfolded indexed_def] 2]
    obtain sections2 where "wellbore.sections w' = reindex sections2"
      by (metis (no_types, lifting) wellbore.select_convs(5) wellbore.surjective
          wellbore.update_convs(5,6))
    then show ?thesis by (simp add: indexed_def)
  next
    case 3
    with assms(1) show ?thesis by simp
  qed
qed

lemma add_sections_indexed:
  "indexed w \<Longrightarrow> add_sections w rows = Inr w' \<Longrightarrow> indexed w'"
proof (induction rows arbitrary: w)
  case Nil
  then show ?case by simp
next
  case (Cons kwargs rows)
  then show ?case
    by (auto split: sum.splits dest: add_section_with_properties_indexed)
qed

lemma WellBoreExpanded_indexed:
  "WellBoreExpanded a1 a2 a3 a4 a5 a6 a7 a8 = Inr w \<Longrightarrow>
   indexed w \<and> wellbore.sections w = [] \<and> \<not> wellbore.complete w"
  by (auto simp add: WellBoreExpanded_def indexed_def Let_def split: sum.splits)

text \<open>
  Claim C3 (as amended). Under the top-down strategy, for every insertion into a well whose
  sections are keyed \<open>0..n-1\<close> (a new well is, and every insertion leaves it so): the computed
  top of the new section is the well top when no section is staged, and otherwise the bottom
  of the section last in the collection; the section is stored with this top, unless the raw
  fields carry a \<^verbatim>\<open>top\<close> of their own, and with every other raw field unchanged. After the
  insertion the sections are the old ones and the new one, sorted ascending by top and keyed
  \<open>0..n\<close>. The completion flag is never reset: after the insertion it is true if and only if
  it was true before or the bottom of the last section equals the bottom of the well.
\<close>

theorem add_section_top_down_new_step:
  assumes "map fst (wellbore.sections self) = map Idx [0..<length (wellbore.sections self)]"
    and "add_section_top_down_new self kwargs = Inr self'"
  shows "\<exists>new_top new.
           (wellbore.sections self = [] \<and> new_top = Num (wellbore.top self)
            \<or> wellbore.sections self \<noteq> []
              \<and> snd (last (wellbore.sections self)) ''bottom'' = Some new_top)
         \<and> (kwargs ''top'' = None \<longrightarrow> new ''top'' = Some new_top)
         \<and> (\<forall>k. k \<noteq> ''top'' \<longrightarrow> new k = kwargs k)
         \<and> mset (map snd (wellbore.sections self'))
             = mset (map snd (wellbore.sections self)) + {#new#}
         \<and> map fst (wellbore.sections self') = map Idx [0..<length (wellbore.sections self')]
         \<and> (\<exists>ks. map (\<lambda>d. d ''top'') (map snd (wellbore.sections self')) = map Some ks
                \<and> sorted_wrt pyval_le ks)
         \<and> (wellbore.complete self' \<longleftrightarrow>
               wellbore.complete self
               \<or> snd (last (wellbore.sections self')) ''bottom''
                   = Some (Num (wellbore.bottom self)))"
proof -
  from add_section_top_down_new_Inr [OF assms]
  obtain new_top sections2 b where
    pos: "wellbore.sections self = [] \<and> new_top = Num (wellbore.top self)
     \<or> wellbore.sections self \<noteq> []
       \<and> snd (last (wellbore.sections self)) ''bottom'' = Some new_top"
    and srt: "py_sorted False (\<lambda>item. getitem (snd item) ''top'')
       (wellbore.sections self
          @ [(Idx (length (wellbore.sections self)), [''top'' \<mapsto> new_top] ++ kwargs)])
     = Inr sections2"
    and ne: "sections2 \<noteq> []"
    and b: "snd (last sections2) ''bottom'' = Some b"
    and self': "self' = self\<lparr>wellbore.complete :=
                    (b = Num (wellbore.bottom self) \<or> wellbore.complete self),
                  wellbore.sections := reindex sections2\<rparr>"
    by blast
  let ?new = "[''top'' \<mapsto> new_top] ++ kwargs"
  have secs: "wellbore.sections self' = reindex sections2"
    and cmpl: "wellbore.complete self'
                 = (b = Num (wellbore.bottom self) \<or> wellbore.complete self)"
    by (simp_all add: self')
  have 1: "kwargs ''top'' = None \<longrightarrow> ?new ''top'' = Some new_top"
    by (simp add: map_add_def)
  have 2: "\<forall>k. k \<noteq> ''top'' \<longrightarrow> ?new k = kwargs k"
    by (simp add: map_add_def split: option.splits)
  have 3: "mset (map snd (wellbore.sections self'))
             = mset (map snd (wellbore.sections self)) + {#?new#}"
    unfolding secs by (rule mset_values_sorted [OF srt])
  have 4: "map fst (wellbore.sections self') = map Idx [0..<length (wellbore.sections self')]"
    unfolding secs by simp
  from py_sorted_Inr(2) [OF srt] obtain vs where
    vs: "map (\<lambda>item. getitem (snd item) ''top'') sections2 = map Inr vs"
      "sorted_wrt pyval_le vs"
    by auto
  have 5: "\<exists>ks. map (\<lambda>d. d ''top'') (map snd (wellbore.sections self')) = map Some ks
                \<and> sorted_wrt pyval_le ks"
    unfolding secs using map_getitem_Inr [OF vs(1)] vs(2) by auto
  have 6: "wellbore.complete self' \<longleftrightarrow>
               wellbore.complete self
               \<or> snd (last (wellbore.sections self')) ''bottom''
                   = Some (Num (wellbore.bottom self))"
    unfolding secs cmpl snd_last_reindex [OF ne] b by auto
  from pos 1 2 3 4 5 6 show ?thesis
    by (intro exI [of _ new_top] exI [of _ ?new] conjI)
qed


theorem add_section_top_down_new_step_witness:
  "\<exists>self'.
     map fst (wellbore.sections example_top_down_staged)
       = map Idx [0..<length (wellbore.sections example_top_down_staged)]
     \<and> add_section_top_down_new example_top_down_staged example_kwargs_production = Inr self'
     \<and> example_kwargs_production ''top'' = None
     \<and> wellbore.complete self'
     \<and> (\<exists>new_top new.
           (wellbore.sections example_top_down_staged = [] \<and> new_top = Num (wellbore.top example_top_down_staged)
            \<or> wellbore.sections example_top_down_staged \<noteq> []
              \<and> snd (last (wellbore.sections example_top_down_staged)) ''bottom'' = Some new_top)
         \<and> (example_kwargs_production ''top'' = None \<longrightarrow> new ''top'' = Some new_top)
         \<and> (\<forall>k. k \<noteq> ''top'' \<longrightarrow> new k = example_kwargs_production k)
         \<and> mset (map snd (wellbore.sections self'))
             = mset (map snd (wellbore.sections example_top_down_staged)) + {#new#}
         \<and> map fst (wellbore.sections self') = map Idx [0..<length (wellbore.sections self')]
         \<and> (\<exists>ks. map (\<lambda>d. d ''top'') (map snd (wellbore.sections self')) = map Some ks
                \<and> sorted_wrt pyval_le ks)
         \<and> (wellbore.complete self' \<longleftrightarrow>
               wellbore.complete example_top_down_staged
               \<or> snd (last (wellbore.sections self')) ''bottom''
                   = Some (Num (wellbore.bottom example_top_down_staged))))"
proof -
  have inv: "map fst (wellbore.sections example_top_down_staged)
       = map Idx [0..<length (wellbore.sections example_top_down_staged)]"
    by (simp add: example_top_down_staged_def)
  have ok: "add_section_top_down_new example_top_down_staged example_kwargs_production =
     Inr (example_top_down_staged
           \<lparr>wellbore.complete := (Num 20500 = Num (wellbore.bottom example_top_down_staged)
                                  \<or> wellbore.complete example_top_down_staged),
            wellbore.sections :=
              [(Idx 0, [''top'' \<mapsto> Num 100] ++ example_kwargs_surface),
               (Idx 1, [''top'' \<mapsto> Num 2500] ++ example_kwargs_production)]\<rparr>)"
    by (rule top_down_step_one [where pt = 100])
      (simp_all add: example_top_down_staged_def example_well_def example_kwargs_surface_def
        example_kwargs_production_def map_add_apply)
  have top: "example_kwargs_production ''top'' = None"
    by (simp add: example_kwargs_production_def)
  have cmpl: "wellbore.complete (example_top_down_staged
           \<lparr>wellbore.complete := (Num 20500 = Num (wellbore.bottom example_top_down_staged)
                                  \<or> wellbore.complete example_top_down_staged),
            wellbore.sections :=
              [(Idx 0, [''top'' \<mapsto> Num 100] ++ example_kwargs_surface),
               (Idx 1, [''top'' \<mapsto> Num 2500] ++ example_kwargs_production)]\<rparr>)"
    by (simp add: example_top_down_staged_def example_well_def)
  note step = add_section_top_down_new_step [OF inv ok]
  show ?thesis
    by (rule exI, intro conjI) (rule inv, rule ok, rule top, rule cmpl, rule step)
qed


text \<open>
  The claim as written fails in two ways. The production row and then the surface row, added
  to the new example well: the flag is set by the first insertion and stays set, while the
  last section's bottom, 2500, is not the well's bottom. And raw fields that carry a \<^verbatim>\<open>top\<close>
  replace the computed top of the first section.
\<close>

theorem top_down_completion_counterexample:
  "(case add_section_with_properties (example_well ''top_down'') example_kwargs_production of
      Inl e \<Rightarrow> False
    | Inr w1 \<Rightarrow>
        (case add_section_with_properties w1 example_kwargs_surface of
           Inl e \<Rightarrow> False
         | Inr w2 \<Rightarrow>
             wellbore.complete w2
             \<and> snd (last (wellbore.sections w2)) ''bottom'' = Some (Num 2500)
             \<and> wellbore.bottom w2 = 20500))
   \<and> (case add_section_with_properties (example_well ''top_down'')
            (example_kwargs_surface(''top'' \<mapsto> Num 50)) of
        Inl e \<Rightarrow> False
      | Inr w1 \<Rightarrow>
          snd (hd (wellbore.sections w1)) ''top'' = Some (Num 50) \<and> wellbore.top w1 = 100)"
proof -
  let ?w0 = "example_well ''top_down''"
  let ?p = "[''top'' \<mapsto> Num (wellbore.top ?w0)] ++ example_kwargs_production"
  let ?w1 = "?w0\<lparr>wellbore.complete := (Num 20500 = Num (wellbore.bottom ?w0)
                                       \<or> wellbore.complete ?w0),
                  wellbore.sections := [(Idx 0, ?p)]\<rparr>"
  have m0: "wellbore.method' ?w0 = ''top_down''" and m1: "wellbore.method' ?w1 = ''top_down''"
    by (simp_all add: example_well_def)
  have 1: "add_section_with_properties ?w0 example_kwargs_production = Inr ?w1"
    unfolding add_section_with_properties_top_down [OF required_production m0]
    by (rule top_down_step_empty) (simp_all add: example_well_def example_kwargs_production_def)
  have 2: "add_section_with_properties ?w1 example_kwargs_surface =
             Inr (?w1\<lparr>wellbore.complete := (Num 2500 = Num (wellbore.bottom ?w1)
                                              \<or> wellbore.complete ?w1),
                       wellbore.sections :=
                         [(Idx 0, ?p), (Idx 1, [''top'' \<mapsto> Num 20500] ++ example_kwargs_surface)]\<rparr>)"
    unfolding add_section_with_properties_top_down [OF required_surface m1]
    by (rule top_down_step_one [where pt = 100])
      (simp_all add: example_well_def example_kwargs_production_def example_kwargs_surface_def
        map_add_apply)
  have 3: "add_section_with_properties ?w0 (example_kwargs_surface(''top'' \<mapsto> Num 50)) =
             Inr (?w0\<lparr>wellbore.complete := (Num 2500 = Num (wellbore.bottom ?w0)
                                              \<or> wellbore.complete ?w0),
                       wellbore.sections :=
                         [(Idx 0, [''top'' \<mapsto> Num (wellbore.top ?w0)]
                                    ++ example_kwargs_surface(''top'' \<mapsto> Num 50))]\<rparr>)"
    unfolding add_section_with_properties_top_down [OF required_surface_top m0]
    by (rule top_down_step_empty) (simp_all add: example_well_def example_kwargs_surface_def)
  show ?thesis
    unfolding 1 3 sum.case 2
    by (simp add: example_well_def example_kwargs_surface_def map_add_apply)
qed


text \<open>
  Claim C4. Under the bottom-up strategy each section after the first is to start at the
  \<^verbatim>\<open>md_top\<close> (if present, else the \<^verbatim>\<open>top\<close>) of the shallowest section staged so far, and
  the completion flag is to be true if and only if the top of the shallowest section equals
  the top of the well; so say the docstring (\<^emph>\<open>starts at previous section's md_top or top\<close>,
  \<^emph>\<open>when topmost section reaches wellbore top\<close>) and the comments of the method. The code
  does not do this. It sorts the sections descending by \<^verbatim>\<open>md_bottom\<close>, so that the section at
  index 0, which it reads in both places, is the deepest one. The top-down strategy, its
  mirror image, sorts ascending and reads the last section, which is the adjacent one.

  Three runs show it, each from a new well with the default strategy. Two calls of length
  500 span the docstring well from 1000 up to 0: the shallowest section's top, 0, is the
  top of the well, and the flag is false, because the top tested is the deepest section's,
  500. Three calls of length 500 on a well from 0 to 1500: when the third is made the
  shallowest section's \<^verbatim>\<open>md_top\<close> is 500, yet the third section is given the bottom 1000 and the
  top 500, the \<^verbatim>\<open>md_top\<close> of the deepest section and 500 below it, and overlaps the second;
  the flag is false again. The first run once more through \<open>add_section_with_properties\<close>,
  as \<^verbatim>\<open>main\<close> adds its rows, with every required field: the same tops and the same flag.
\<close>

theorem bottom_up_reads_deepest_section:
  "(case WellBoreExpanded ''WELL-A'' 0 1000 1200 1150 950 1 ''bottom_up'' of
      Inl e \<Rightarrow> False
    | Inr w0 \<Rightarrow>
        (case add_section_bottom_up_new w0 docstring_kwargs of
           Inl e \<Rightarrow> False
         | Inr w1 \<Rightarrow>
             (case add_section_bottom_up_new w1 docstring_kwargs_upper of
                Inl e \<Rightarrow> False
              | Inr w2 \<Rightarrow>
                  map (\<lambda>d. d ''md_bottom'') (map snd (wellbore.sections w2))
                    = [Some (Num 1000), Some (Num 500)]
                  \<and> map (\<lambda>d. d ''top'') (map snd (wellbore.sections w2))
                      = [Some (Num 500), Some (Num 0)]
                  \<and> wellbore.top w2 = 0
                  \<and> \<not> wellbore.complete w2)))
   \<and> (case WellBoreExpanded ''WELL-B'' 0 1500 1700 1650 950 1 ''bottom_up'' of
        Inl e \<Rightarrow> False
      | Inr w0 \<Rightarrow>
          (case add_section_bottom_up_new w0 deep_kwargs_lower of
             Inl e \<Rightarrow> False
           | Inr w1 \<Rightarrow>
               (case add_section_bottom_up_new w1 docstring_kwargs of
                  Inl e \<Rightarrow> False
                | Inr w2 \<Rightarrow>
                    map (\<lambda>d. d ''md_top'') (map snd (wellbore.sections w2))
                      = [Some (Num 1000), Some (Num 500)]
                    \<and> (case add_section_bottom_up_new w2 docstring_kwargs_upper of
                         Inl e \<Rightarrow> False
                       | Inr w3 \<Rightarrow>
                           map (\<lambda>d. d ''md_bottom'') (map snd (wellbore.sections w3))
                             = [Some (Num 1500), Some (Num 1000), Some (Num 500)]
                           \<and> map (\<lambda>d. d ''bottom'') (map snd (wellbore.sections w3))
                               = [Some (Num 1500), Some (Num 1000), Some (Num 1000)]
                           \<and> map (\<lambda>d. d ''top'') (map snd (wellbore.sections w3))
                               = [Some (Num 1000), Some (Num 500), Some (Num 500)]
                           \<and> wellbore.top w3 = 0
                           \<and> \<not> wellbore.complete w3))))
   \<and> (case WellBoreExpanded ''WELL-A'' 0 1000 1200 1150 950 1 ''bottom_up'' of
        Inl e \<Rightarrow> False
      | Inr w0 \<Rightarrow>
          (case add_sections w0 [docstring_row_lower, docstring_row_upper] of
             Inl e \<Rightarrow> False
           | Inr w2 \<Rightarrow>
               map (\<lambda>d. d ''md_bottom'') (map snd (wellbore.sections w2))
                 = [Some (Num 1000), Some (Num 500)]
               \<and> map (\<lambda>d. d ''top'') (map snd (wellbore.sections w2))
                   = [Some (Num 500), Some (Num 0)]
               \<and> wellbore.top w2 = 0
               \<and> \<not> wellbore.complete w2))"
proof -
  let ?a1 = "[''top'' \<mapsto> Num 500, ''bottom'' \<mapsto> Num (wellbore.bottom docstring_well)]
               ++ docstring_kwargs"
  let ?wa1 = "docstring_well
               \<lparr>wellbore.complete := (Num 500 = Num (wellbore.top docstring_well)
                                      \<or> wellbore.complete docstring_well),
                wellbore.sections := [(Idx 0, ?a1)]\<rparr>"
  let ?a2 = "[''top'' \<mapsto> Num 0, ''bottom'' \<mapsto> Num 500] ++ docstring_kwargs_upper"
  have a1: "add_section_bottom_up_new docstring_well docstring_kwargs = Inr ?wa1"
    by (rule bottom_up_step_empty)
      (simp_all add: docstring_well_def docstring_kwargs_def py_sub_def map_add_apply)
  have a2: "add_section_bottom_up_new ?wa1 docstring_kwargs_upper =
             Inr (?wa1\<lparr>wellbore.complete := (Num 500 = Num (wellbore.top ?wa1)
                                              \<or> wellbore.complete ?wa1),
                       wellbore.sections := [(Idx 0, ?a1), (Idx 1, ?a2)]\<rparr>)"
    by (rule bottom_up_step_one [where fk = 1000 and nk = 500])
      (simp_all add: docstring_well_def docstring_kwargs_def docstring_kwargs_upper_def
        py_sub_def map_add_apply get_or_item_def getitem_def)
  have a: "(case add_section_bottom_up_new docstring_well docstring_kwargs of
           Inl e \<Rightarrow> False
         | Inr w1 \<Rightarrow>
             (case add_section_bottom_up_new w1 docstring_kwargs_upper of
                Inl e \<Rightarrow> False
              | Inr w2 \<Rightarrow>
                  map (\<lambda>d. d ''md_bottom'') (map snd (wellbore.sections w2))
                    = [Some (Num 1000), Some (Num 500)]
                  \<and> map (\<lambda>d. d ''top'') (map snd (wellbore.sections w2))
                      = [Some (Num 500), Some (Num 0)]
                  \<and> wellbore.top w2 = 0
                  \<and> \<not> wellbore.complete w2))"
    unfolding a1 sum.case a2
    by (simp add: docstring_well_def docstring_kwargs_def docstring_kwargs_upper_def
        map_add_apply)
  let ?b1 = "[''top'' \<mapsto> Num 1000, ''bottom'' \<mapsto> Num (wellbore.bottom deep_well)]
               ++ deep_kwargs_lower"
  let ?wb1 = "deep_well
               \<lparr>wellbore.complete := (Num 1000 = Num (wellbore.top deep_well)
                                      \<or> wellbore.complete deep_well),
                wellbore.sections := [(Idx 0, ?b1)]\<rparr>"
  let ?b2 = "[''top'' \<mapsto> Num 500, ''bottom'' \<mapsto> Num 1000] ++ docstring_kwargs"
  let ?wb2 = "?wb1\<lparr>wellbore.complete := (Num 1000 = Num (wellbore.top ?wb1)
                                              \<or> wellbore.complete ?wb1),
                       wellbore.sections := [(Idx 0, ?b1), (Idx 1, ?b2)]\<rparr>"
  let ?b3 = "[''top'' \<mapsto> Num 500, ''bottom'' \<mapsto> Num 1000] ++ docstring_kwargs_upper"
  have b1: "add_section_bottom_up_new deep_well deep_kwargs_lower = Inr ?wb1"
    by (rule bottom_up_step_empty)
      (simp_all add: deep_well_def deep_kwargs_lower_def py_sub_def map_add_apply)
  have b2: "add_section_bottom_up_new ?wb1 docstring_kwargs = Inr ?wb2"
    by (rule bottom_up_step_one [where fk = 1500 and nk = 1000])
      (simp_all add: deep_well_def deep_kwargs_lower_def docstring_kwargs_def
        py_sub_def map_add_apply get_or_item_def getitem_def)
  have b3: "add_section_bottom_up_new ?wb2 docstring_kwargs_upper =
             Inr (?wb2\<lparr>wellbore.complete := (Num 1000 = Num (wellbore.top ?wb2)
                                              \<or> wellbore.complete ?wb2),
                       wellbore.sections := [(Idx 0, ?b1), (Idx 1, ?b2), (Idx 2, ?b3)]\<rparr>)"
    by (rule bottom_up_step_two [where fk = 1500 and sk = 1000 and nk = 500])
      (simp_all add: deep_well_def deep_kwargs_lower_def docstring_kwargs_def
        docstring_kwargs_upper_def py_sub_def map_add_apply get_or_item_def getitem_def)
  have b: "(case add_section_bottom_up_new deep_well deep_kwargs_lower of
             Inl e \<Rightarrow> False
           | Inr w1 \<Rightarrow>
               (case add_section_bottom_up_new w1 docstring_kwargs of
                  Inl e \<Rightarrow> False
                | Inr w2 \<Rightarrow>
                    map (\<lambda>d. d ''md_top'') (map snd (wellbore.sections w2))
                      = [Some (Num 1000), Some (Num 500)]
                    \<and> (case add_section_bottom_up_new w2 docstring_kwargs_upper of
                         Inl e \<Rightarrow> False
                       | Inr w3 \<Rightarrow>
                           map (\<lambda>d. d ''md_bottom'') (map snd (wellbore.sections w3))
                             = [Some (Num 1500), Some (Num 1000), Some (Num 500)]
                           \<and> map (\<lambda>d. d ''bottom'') (map snd (wellbore.sections w3))
                               = [Some (Num 1500), Some (Num 1000), Some (Num 1000)]
                           \<and> map (\<lambda>d. d ''top'') (map snd (wellbore.sections w3))
                               = [Some (Num 1000), Some (Num 500), Some (Num 500)]
                           \<and> wellbore.top w3 = 0
                           \<and> \<not> wellbore.complete w3)))"
    unfolding b1 sum.case b2 b3
    by (simp add: deep_well_def deep_kwargs_lower_def docstring_kwargs_def
        docstring_kwargs_upper_def map_add_apply)
  let ?c1 = "[''top'' \<mapsto> Num 500, ''bottom'' \<mapsto> Num (wellbore.bottom docstring_well)]
               ++ docstring_row_lower"
  let ?wc1 = "docstring_well
               \<lparr>wellbore.complete := (Num 500 = Num (wellbore.top docstring_well)
                                      \<or> wellbore.complete docstring_well),
                wellbore.sections := [(Idx 0, ?c1)]\<rparr>"
  let ?c2 = "[''top'' \<mapsto> Num 0, ''bottom'' \<mapsto> Num 500] ++ docstring_row_upper"
  have m0: "wellbore.method' docstring_well = ''bottom_up''"
    and m1: "wellbore.method' ?wc1 = ''bottom_up''"
    by (simp_all add: docstring_well_def)
  have c1: "add_section_with_properties docstring_well docstring_row_lower = Inr ?wc1"
    unfolding add_section_with_properties_bottom_up [OF required_docstring_rows(1) m0]
    by (rule bottom_up_step_empty)
      (simp_all add: docstring_well_def docstring_row_lower_def example_kwargs_production_def
        py_sub_def map_add_apply)
  have c2: "add_section_with_properties ?wc1 docstring_row_upper =
             Inr (?wc1\<lparr>wellbore.complete := (Num 500 = Num (wellbore.top ?wc1)
                                              \<or> wellbore.complete ?wc1),
                       wellbore.sections := [(Idx 0, ?c1), (Idx 1, ?c2)]\<rparr>)"
    unfolding add_section_with_properties_bottom_up [OF required_docstring_rows(2) m1]
    by (rule bottom_up_step_one [where fk = 1000 and nk = 500])
      (simp_all add: docstring_well_def docstring_row_lower_def docstring_row_upper_def
        example_kwargs_production_def example_kwargs_surface_def
        py_sub_def map_add_apply get_or_item_def getitem_def)
  have c: "(case add_sections docstring_well [docstring_row_lower, docstring_row_upper] of
             Inl e \<Rightarrow> False
           | Inr w2 \<Rightarrow>
               map (\<lambda>d. d ''md_bottom'') (map snd (wellbore.sections w2))
                 = [Some (Num 1000), Some (Num 500)]
               \<and> map (\<lambda>d. d ''top'') (map snd (wellbore.sections w2))
                   = [Some (Num 500), Some (Num 0)]
               \<and> wellbore.top w2 = 0
               \<and> \<not> wellbore.complete w2)"
    unfolding add_sections.simps c1 sum.case c2
    by (simp add: docstring_well_def docstring_row_lower_def docstring_row_upper_def
        example_kwargs_production_def example_kwargs_surface_def map_add_apply)
  show ?thesis
    unfolding docstring_well_new deep_well_new sum.case
    by (intro conjI) (rule a, rule b, rule c)
qed

end
